theory Spec2Isabelle
  imports Complex_Main "HOL-Library.Log_Nat"
begin

section \<open>pywinprint: printer.py and driver.py\<close>

text \<open>
  The development follows the two source files. \<^verbatim>\<open>printer.py\<close> holds the classes
  \<^verbatim>\<open>Printer\<close>, \<^verbatim>\<open>Document\<close> and \<^verbatim>\<open>Page\<close> (three context managers around a Windows
  device context) and the module-level \<^verbatim>\<open>send\<close>; \<^verbatim>\<open>driver.py\<close> holds the printer
  prompt, the file scan and \<^verbatim>\<open>main\<close>.
\<close>

subsection \<open>Python floats\<close>

text \<open>
  \<^verbatim>\<open>Page.fit_dib\<close> computes with Python floats: \<^verbatim>\<open>/\<close> on two ints is true division and
  returns the double nearest to the exact quotient, \<^verbatim>\<open>int * float\<close> converts the int and
  multiplies in double precision, \<^verbatim>\<open>int(x)\<close> truncates toward zero. A double is modelled
  by the rational it denotes, and every operation by the exact result rounded to 53
  significant bits, ties to even. The exponent range is not modelled: the sizes the
  functions receive are machine integers, far from overflow and underflow.
\<close>

definition flog2 :: "rat \<Rightarrow> int" where
  \<comment> \<open>\<open>\<lfloor>log\<^sub>2 x\<rfloor>\<close> for \<open>x > 0\<close>, from the bit lengths of numerator and denominator\<close>
  "flog2 x = (case quotient_of x of (p, q) \<Rightarrow>
     let k = bitlen p - bitlen q in if 2 powi k \<le> x then k else k - 1)"

definition round_half_even :: "rat \<Rightarrow> int" where
  "round_half_even y = (let f = \<lfloor>y\<rfloor>; d = y - of_int f in
     if d < 1 / 2 then f else if 1 / 2 < d then f + 1 else if even f then f else f + 1)"

definition round_pos :: "rat \<Rightarrow> rat" where
  "round_pos x = (let e = flog2 x - 52 in of_int (round_half_even (x / 2 powi e)) * 2 powi e)"

definition to_double :: "rat \<Rightarrow> rat" where
  "to_double x = (if x = 0 then 0 else if x < 0 then - round_pos (- x) else round_pos x)"

datatype pyerr = ZeroDivisionError | EOFError | ValueError | IndexError

definition float_of_int :: "int \<Rightarrow> rat" where
  "float_of_int a = to_double (of_int a)"

definition truediv :: "int \<Rightarrow> int \<Rightarrow> pyerr + rat" where
  \<comment> \<open>\<^verbatim>\<open>a / b\<close> on ints\<close>
  "truediv a b = (if b = 0 then Inl ZeroDivisionError else Inr (to_double (of_int a / of_int b)))"

definition float_mul :: "int \<Rightarrow> rat \<Rightarrow> rat" where
  \<comment> \<open>\<^verbatim>\<open>a * x\<close> with \<open>a\<close> an int and \<open>x\<close> a float\<close>
  "float_mul a x = to_double (float_of_int a * x)"

definition py_int :: "rat \<Rightarrow> int" where
  \<comment> \<open>\<^verbatim>\<open>int(x)\<close> on a float: truncation toward zero\<close>
  "py_int x = (if 0 \<le> x then \<lfloor>x\<rfloor> else \<lceil>x\<rceil>)"

definition py_min2 :: "rat \<Rightarrow> rat \<Rightarrow> rat" where
  \<comment> \<open>\<^verbatim>\<open>min([a, b])\<close>: the first of the smallest elements\<close>
  "py_min2 a b = (if b < a then b else a)"

subsection \<open>Paths, images and the outside world\<close>

text \<open>
  A \<^verbatim>\<open>Path\<close> is the list of its components; \<^verbatim>\<open>Path(".")\<close> is the empty list.
  \<^verbatim>\<open>path.name\<close> is the last component and \<^verbatim>\<open>path.suffix\<close> is what pathlib computes
  from it: the text from the last dot on, unless that dot is the first or the last
  character of the name.
\<close>

type_synonym path = "string list"

definition path_name :: "path \<Rightarrow> string" where
  "path_name p = (if p = [] then [] else last p)"

definition rfind :: "char \<Rightarrow> string \<Rightarrow> nat option" where
  \<comment> \<open>\<^verbatim>\<open>s.rfind(c)\<close>, with \<open>None\<close> for \<^verbatim>\<open>-1\<close>\<close>
  "rfind c s = (if c \<in> set s then Some (length s - 1 - length (takeWhile (\<lambda>d. d \<noteq> c) (rev s)))
                else None)"

definition name_suffix :: "string \<Rightarrow> string" where
  "name_suffix nm = (case rfind CHR ''.'' nm of
       None \<Rightarrow> []
     | Some i \<Rightarrow> if 0 < i \<and> int i < int (length nm) - 1 then drop i nm else [])"

definition path_suffix :: "path \<Rightarrow> string" where
  "path_suffix p = name_suffix (path_name p)"

text \<open>
  A PIL image is its mode, its size in pixels and the number of quarter turns applied to
  the decoded picture. \<^verbatim>\<open>convert("RGB")\<close> changes the mode only; \<^verbatim>\<open>rotate(90)\<close> is called
  without \<^verbatim>\<open>expand\<close>, so PIL keeps the size of the canvas and turns the picture inside it.
  A \<^verbatim>\<open>Dib\<close> wraps the image it was built from and has the same size.
\<close>

record image =
  img_mode :: string
  img_size :: "int \<times> int"
  img_turns :: nat

datatype dib = Dib image

fun dib_image :: "dib \<Rightarrow> image" where
  "dib_image (Dib im) = im"

definition dib_size :: "dib \<Rightarrow> int \<times> int" where
  "dib_size d = img_size (dib_image d)"

definition convert_RGB :: "image \<Rightarrow> image" where
  "convert_RGB im = im\<lparr>img_mode := ''RGB''\<rparr>"

definition rotate_90 :: "image \<Rightarrow> image" where
  "rotate_90 im = im\<lparr>img_turns := img_turns im + 1\<rparr>"

type_synonym rect = "int \<times> int \<times> int \<times> int"

text \<open>
  Every call that leaves the program (win32ui, win32print, PIL, pdf2image, \<^verbatim>\<open>os.startfile\<close>,
  the console) is an event of the run, recorded with its outcome: \<open>True\<close> when the call
  returned, \<open>False\<close> when it raised.
\<close>

datatype call =
    GetDefaultPrinter | CreateDC | CreatePrinterDC string | GetDeviceCaps int
  | GetHandleOutput | DeleteDC
  | StartDoc string | EndDoc | StartPage | EndPage
  | Draw dib int rect
  | Startfile path
  | ConvertFromPath path | ImageOpen path | ConvertRGB image | Rotate image | MakeDib image
  | Print string | PrintTemplate string string path
  | Input string

type_synonym event = "call \<times> bool"

type_synonym trace = "event list"

datatype exn = Py pyerr | ExternalError call

text \<open>
  The directory tree below the working directory: each directory lists its entries in
  the order \<^verbatim>\<open>os.scandir\<close> gives them.
\<close>

datatype node = File string | Dir string "node list"

text \<open>
  The environment answers the calls: what they return, and whether a call raises given
  everything that happened before it. \<open>stdin\<close> holds the answer to each \<^verbatim>\<open>input()\<close> of
  the run, in order: a line, or \<open>None\<close> when that read meets end-of-file; reads after the
  last answer meet end-of-file too.
\<close>

record env =
  raises :: "trace \<Rightarrow> call \<Rightarrow> bool"
  default_printer :: string
  device_caps :: "string \<Rightarrow> int \<Rightarrow> int"
  handle_output :: "string \<Rightarrow> int"
  image_file :: "path \<Rightarrow> image"
  pdf_pages :: "path \<Rightarrow> image list"
  stdin :: "string option list"
  files :: "node list"

type_synonym 'a comp = "trace \<Rightarrow> (exn + 'a) \<times> trace"

definition ret :: "'a \<Rightarrow> 'a comp" where
  "ret x tr = (Inr x, tr)"

definition throw :: "exn \<Rightarrow> 'a comp" where
  "throw e tr = (Inl e, tr)"

definition seq :: "'a comp \<Rightarrow> ('a \<Rightarrow> 'b comp) \<Rightarrow> 'b comp" where
  \<comment> \<open>one statement after another: an exception skips what follows\<close>
  "seq m f tr = (case m tr of (Inl e, tr1) \<Rightarrow> (Inl e, tr1) | (Inr x, tr1) \<Rightarrow> f x tr1)"

definition ext :: "env \<Rightarrow> call \<Rightarrow> 'a \<Rightarrow> 'a comp" where
  \<comment> \<open>an outside call returning \<open>v\<close>\<close>
  "ext en c v tr = (if raises en tr c then (Inl (ExternalError c), tr @ [(c, False)])
                    else (Inr v, tr @ [(c, True)]))"

definition py_print :: "string \<Rightarrow> unit comp" where
  "py_print s tr = (Inr (), tr @ [(Print s, True)])"

definition print_template :: "string \<Rightarrow> string \<Rightarrow> path \<Rightarrow> unit comp" where
  \<comment> \<open>\<^verbatim>\<open>print(Template(msg).safe_substitute(...))\<close>, recorded by template and arguments\<close>
  "print_template msg pn p tr = (Inr (), tr @ [(PrintTemplate msg pn p, True)])"

fun is_input :: "event \<Rightarrow> bool" where
  "is_input (Input s, ok) = True"
| "is_input ev = False"

definition answer :: "env \<Rightarrow> trace \<Rightarrow> string option" where
  \<comment> \<open>what the console gives to the next \<^verbatim>\<open>input()\<close>: the first answer not read so far\<close>
  "answer en tr =
     (let k = length (filter is_input tr) in if k < length (stdin en) then stdin en ! k else None)"

definition py_input :: "env \<Rightarrow> string \<Rightarrow> string comp" where
  \<comment> \<open>\<^verbatim>\<open>input(prompt)\<close>: a line, or \<^verbatim>\<open>EOFError\<close>\<close>
  "py_input en prompt tr =
     (case answer en tr of
        Some line \<Rightarrow> (Inr line, tr @ [(Input prompt, True)])
      | None \<Rightarrow> (Inl (Py EOFError), tr @ [(Input prompt, False)]))"

definition try_except :: "'a comp \<Rightarrow> (exn \<Rightarrow> bool) \<Rightarrow> 'a comp \<Rightarrow> 'a comp" where
  \<comment> \<open>\<^verbatim>\<open>try: body except (caught): handler\<close>\<close>
  "try_except body caught handler tr =
     (case body tr of
        (Inl e, tr1) \<Rightarrow> if caught e then handler tr1 else (Inl e, tr1)
      | (Inr x, tr1) \<Rightarrow> (Inr x, tr1))"

definition with_stmt :: "'a comp \<Rightarrow> unit comp \<Rightarrow> ('a \<Rightarrow> 'b comp) \<Rightarrow> 'b comp" where
  \<comment> \<open>\<^verbatim>\<open>with\<close> for a manager whose \<^verbatim>\<open>__exit__\<close> returns \<^verbatim>\<open>None\<close>: when \<^verbatim>\<open>__enter__\<close> raises the
      body and \<^verbatim>\<open>__exit__\<close> are skipped; otherwise \<^verbatim>\<open>__exit__\<close> runs however the body ended,
      and an exception of the body is raised again after it unless \<^verbatim>\<open>__exit__\<close> itself raised\<close>
  "with_stmt enter exit body tr =
     (case enter tr of
        (Inl e, tr1) \<Rightarrow> (Inl e, tr1)
      | (Inr x, tr1) \<Rightarrow>
          (case body x tr1 of (r, tr2) \<Rightarrow>
             (case exit tr2 of
                (Inl e', tr3) \<Rightarrow> (Inl e', tr3)
              | (Inr u, tr3) \<Rightarrow> (r, tr3))))"

subsection \<open>printer.py\<close>

record printer =
  name :: string
  paper_width :: int
  paper_height :: int
  handle :: int

definition PAPER_WIDTH_IDX :: int where
  "PAPER_WIDTH_IDX = 110"

definition PAPER_HEIGHT_IDX :: int where
  "PAPER_HEIGHT_IDX = 111"

definition Printer_init :: "env \<Rightarrow> string \<Rightarrow> printer comp" where
  \<comment> \<open>\<^verbatim>\<open>Printer.__init__\<close>\<close>
  "Printer_init en nm =
     seq (if nm \<noteq> [] then ret nm else ext en GetDefaultPrinter (default_printer en)) (\<lambda>n.
     seq (ext en CreateDC ()) (\<lambda>_.
     seq (ext en (CreatePrinterDC n) ()) (\<lambda>_.
     seq (ext en (GetDeviceCaps PAPER_WIDTH_IDX) (device_caps en n PAPER_WIDTH_IDX)) (\<lambda>w.
     seq (ext en (GetDeviceCaps PAPER_HEIGHT_IDX) (device_caps en n PAPER_HEIGHT_IDX)) (\<lambda>h.
     seq (ext en GetHandleOutput (handle_output en n)) (\<lambda>ho.
     ret \<lparr>name = n, paper_width = w, paper_height = h, handle = ho\<rparr>))))))"

definition Printer_enter :: "printer \<Rightarrow> printer comp" where
  "Printer_enter pr = ret pr"

definition Printer_exit :: "env \<Rightarrow> unit comp" where
  "Printer_exit en = ext en DeleteDC ()"

definition fit_dib :: "printer \<Rightarrow> dib \<Rightarrow> pyerr + rect" where
  \<comment> \<open>\<^verbatim>\<open>Page.fit_dib\<close>\<close>
  "fit_dib pr d =
     (case truediv (paper_width pr) (fst (dib_size d)) of
        Inl e \<Rightarrow> Inl e
      | Inr a \<Rightarrow>
     (case truediv (paper_height pr) (snd (dib_size d)) of
        Inl e \<Rightarrow> Inl e
      | Inr b \<Rightarrow>
          let scale = py_min2 a b;
              width = py_int (float_mul (fst (dib_size d)) scale);
              height = py_int (float_mul (snd (dib_size d)) scale);
              x1 = py_int (to_double (of_int (paper_width pr - width) / 2));
              y1 = py_int (to_double (of_int (paper_height pr - height) / 2));
              x2 = x1 + width;
              y2 = y1 + height
          in Inr (x1, y1, x2, y2)))"

definition fit_spec :: "(rat \<Rightarrow> int) \<Rightarrow> int \<times> int \<Rightarrow> int \<times> int \<Rightarrow> rect" where
  \<comment> \<open>the algorithm of the specification's Page Fitter, for nonzero \<open>w\<close> and \<open>h\<close>, with the
      rounding it applies to a float as a parameter:
      scale = min(W/w, H/h); scaled_w = round(w scale), scaled_h = round(h scale);
      x1 = round((W - scaled_w)/2), y1 = round((H - scaled_h)/2);
      x2 = x1 + scaled_w, y2 = y1 + scaled_h\<close>
  "fit_spec rnd paper bitmap =
     (case paper of (W, H) \<Rightarrow> case bitmap of (w, h) \<Rightarrow>
        let scale = min (to_double (of_int W / of_int w)) (to_double (of_int H / of_int h));
            scaled_w = rnd (to_double (to_double (of_int w) * scale));
            scaled_h = rnd (to_double (to_double (of_int h) * scale));
            x1 = rnd (to_double (of_int (W - scaled_w) / 2));
            y1 = rnd (to_double (of_int (H - scaled_h) / 2))
        in (x1, y1, x1 + scaled_w, y1 + scaled_h))"

definition get_dib :: "env \<Rightarrow> path \<Rightarrow> dib comp" where
  \<comment> \<open>\<^verbatim>\<open>Page.get_dib\<close>\<close>
  "get_dib en p =
     seq (ext en (ImageOpen p) (image_file en p)) (\<lambda>im.
     seq (ext en (ConvertRGB im) (convert_RGB im)) (\<lambda>bmp.
     seq (if fst (img_size bmp) > snd (img_size bmp)
          then ext en (Rotate bmp) (rotate_90 bmp) else ret bmp) (\<lambda>bmp'.
     ext en (MakeDib bmp') (Dib bmp'))))"

definition Page_enter :: "env \<Rightarrow> unit comp" where
  "Page_enter en = ext en StartPage ()"

definition Page_exit :: "env \<Rightarrow> unit comp" where
  "Page_exit en = ext en EndPage ()"

definition Page_send :: "env \<Rightarrow> printer \<Rightarrow> dib \<Rightarrow> unit comp" where
  \<comment> \<open>the rectangle is computed first, then \<^verbatim>\<open>dib.draw\<close> is called with it\<close>
  "Page_send en pr d =
     (case fit_dib pr d of
        Inl e \<Rightarrow> throw (Py e)
      | Inr r \<Rightarrow> ext en (Draw d (handle pr) r) ())"

datatype item = ItemPath path | ItemDib dib

fun Document_send :: "env \<Rightarrow> printer \<Rightarrow> item list \<Rightarrow> unit comp" where
  "Document_send en pr [] = ret ()"
| "Document_send en pr (it # items) =
     seq (case it of ItemPath p \<Rightarrow> get_dib en p | ItemDib d \<Rightarrow> ret d) (\<lambda>d.
     seq (with_stmt (Page_enter en) (Page_exit en) (\<lambda>_. Page_send en pr d)) (\<lambda>_.
     Document_send en pr items))"

definition Document_enter :: "env \<Rightarrow> string \<Rightarrow> unit comp" where
  "Document_enter en nm = ext en (StartDoc nm) ()"

definition Document_exit :: "env \<Rightarrow> unit comp" where
  "Document_exit en = ext en EndDoc ()"

fun make_dibs :: "env \<Rightarrow> image list \<Rightarrow> dib list comp" where
  \<comment> \<open>\<^verbatim>\<open>Dib(page) for page in ...\<close>, unpacked into the argument list before the call\<close>
  "make_dibs en [] = ret []"
| "make_dibs en (page # pages) =
     seq (ext en (MakeDib page) (Dib page)) (\<lambda>d.
     seq (make_dibs en pages) (\<lambda>ds. ret (d # ds)))"

definition device_print :: "env \<Rightarrow> printer \<Rightarrow> path \<Rightarrow> unit comp" where
  \<comment> \<open>\<^verbatim>\<open>Printer.device_print\<close>\<close>
  "device_print en pr p =
     with_stmt (Document_enter en (path_name p)) (Document_exit en) (\<lambda>_.
       if path_suffix p = ''.pdf''
       then seq (ext en (ConvertFromPath p) (pdf_pages en p)) (\<lambda>pages.
            seq (make_dibs en pages) (\<lambda>dibs.
            Document_send en pr (map ItemDib dibs)))
       else Document_send en pr [ItemPath p])"

definition shell_print :: "env \<Rightarrow> path \<Rightarrow> unit comp" where
  \<comment> \<open>\<^verbatim>\<open>Printer.shell_print\<close>\<close>
  "shell_print en p = ext en (Startfile p) ()"

fun Printer_send :: "env \<Rightarrow> printer \<Rightarrow> path list \<Rightarrow> string \<Rightarrow> bool \<Rightarrow> unit comp" where
  \<comment> \<open>\<^verbatim>\<open>Printer.send\<close>; a path given as \<^verbatim>\<open>str\<close> is a \<^verbatim>\<open>Path\<close> from the start here\<close>
  "Printer_send en pr [] msg shell = ret ()"
| "Printer_send en pr (p # paths) msg shell =
     seq (if shell then shell_print en p else device_print en pr p) (\<lambda>_.
     seq (if msg \<noteq> [] then print_template msg (name pr) p else ret ()) (\<lambda>_.
     Printer_send en pr paths msg shell))"

definition send :: "env \<Rightarrow> path list \<Rightarrow> string \<Rightarrow> string \<Rightarrow> bool \<Rightarrow> unit comp" where
  \<comment> \<open>the module-level \<^verbatim>\<open>send(*paths, printer_name, msg, shell)\<close>\<close>
  "send en paths printer_name msg shell =
     seq (Printer_init en printer_name) (\<lambda>pr.
     with_stmt (Printer_enter pr) (Printer_exit en) (\<lambda>printer.
       Printer_send en printer paths msg shell))"

subsection \<open>driver.py\<close>

text \<open>
  The module constants are the fields of a configuration; \<open>PRINTERS\<close> is the list
  \<^verbatim>\<open>EnumPrinters\<close> returned when the module was loaded.
\<close>

record config =
  PRINTERS :: "string list"
  EXPECTED_PRINTER :: "string option"
  PRINTABLE_EXTS :: "string list"
  MSG :: string

definition source_config :: "string list \<Rightarrow> config" where
  \<comment> \<open>the constants as \<^verbatim>\<open>driver.py\<close> sets them\<close>
  "source_config printers =
     \<lparr>PRINTERS = printers, EXPECTED_PRINTER = None, PRINTABLE_EXTS = [''.pdf''],
      MSG = ''SENT $path TO $printer''\<rparr>"

text \<open>
  A line of the console is the list of its code points, each below 256. \<^verbatim>\<open>int(s)\<close> skips
  at both ends the characters tab, line feed, vertical tab, form feed, carriage return
  and space, and the two further whitespace characters below 256, U+0085 and U+00A0; the
  separators U+001C to U+001F are not skipped. Between them it takes one optional sign
  and decimal digits, single underscores allowed between two digits, and it refuses
  more than 4300 digits (the default of \<^verbatim>\<open>sys.get_int_max_str_digits()\<close>).
\<close>

definition is_space :: "char \<Rightarrow> bool" where
  "is_space c = (of_char c \<in> {9, 10, 11, 12, 13, 32, 133, 160 :: nat})"

definition is_digit :: "char \<Rightarrow> bool" where
  "is_digit c = (48 \<le> (of_char c :: nat) \<and> (of_char c :: nat) \<le> 57)"

definition strip :: "string \<Rightarrow> string" where
  \<comment> \<open>the text between the whitespace that \<^verbatim>\<open>int\<close> skips at both ends\<close>
  "strip s = rev (dropWhile is_space (rev (dropWhile is_space s)))"

fun digits_value :: "nat \<Rightarrow> string \<Rightarrow> nat option" where
  "digits_value acc [] = Some acc"
| "digits_value acc (c # cs) =
     (if is_digit c then digits_value (10 * acc + (of_char c - 48)) cs
      else if c = CHR ''_'' \<and> cs \<noteq> [] \<and> is_digit (hd cs) then digits_value acc cs
      else None)"

definition parse_nat :: "string \<Rightarrow> nat option" where
  \<comment> \<open>decimal digits, single underscores allowed between two digits\<close>
  "parse_nat s = (if s \<noteq> [] \<and> is_digit (hd s) then digits_value 0 s else None)"

definition int_max_str_digits :: nat where
  "int_max_str_digits = 4300"

definition int_of_str :: "string \<Rightarrow> pyerr + int" where
  \<comment> \<open>\<^verbatim>\<open>int(s)\<close> on a \<^verbatim>\<open>str\<close>\<close>
  "int_of_str s =
     (let t = strip s;
          r = (case t of
                 [] \<Rightarrow> None
               | c # cs \<Rightarrow>
                   if c = CHR ''-'' then map_option (\<lambda>n. - int n) (parse_nat cs)
                   else if c = CHR ''+'' then map_option int (parse_nat cs)
                   else map_option int (parse_nat t))
      in case r of
           None \<Rightarrow> Inl ValueError
         | Some i \<Rightarrow> if length (filter is_digit t) > int_max_str_digits then Inl ValueError
                     else Inr i)"

definition decimal_value :: "string \<Rightarrow> nat" where
  \<comment> \<open>the number that a string of decimal digits writes\<close>
  "decimal_value ds = foldl (\<lambda>a c. 10 * a + (of_char c - 48)) 0 ds"

definition py_index :: "'a list \<Rightarrow> int \<Rightarrow> pyerr + 'a" where
  \<comment> \<open>\<^verbatim>\<open>xs[i]\<close>: a negative index counts from the end\<close>
  "py_index xs i =
     (if 0 \<le> i \<and> i < int (length xs) then Inr (xs ! nat i)
      else if i < 0 \<and> - int (length xs) \<le> i then Inr (xs ! nat (int (length xs) + i))
      else Inl IndexError)"

fun show_nat :: "nat \<Rightarrow> string" where
  "show_nat n = (if n < 10 then [char_of (48 + n)]
                 else show_nat (n div 10) @ [char_of (48 + n mod 10)])"

declare show_nat.simps [simp del]

fun print_menu :: "nat \<Rightarrow> string list \<Rightarrow> unit comp" where
  \<comment> \<open>\<^verbatim>\<open>for no, choice in enumerate(...): print(f"{no}. {choice}")\<close>\<close>
  "print_menu no [] = ret ()"
| "print_menu no (choice # choices) =
     seq (py_print (show_nat no @ ''. '' @ choice)) (\<lambda>_. print_menu (Suc no) choices)"

definition truthy :: "string option \<Rightarrow> bool" where
  \<comment> \<open>truth value of a \<^verbatim>\<open>str | None\<close>\<close>
  "truthy v = (case v of None \<Rightarrow> False | Some s \<Rightarrow> s \<noteq> [])"

definition expected_in :: "string option \<Rightarrow> string list \<Rightarrow> bool" where
  \<comment> \<open>\<^verbatim>\<open>EXPECTED_PRINTER in PRINTERS\<close>; \<^verbatim>\<open>None\<close> is no element of a list of names\<close>
  "expected_in v names = (case v of None \<Rightarrow> False | Some s \<Rightarrow> s \<in> set names)"

definition str_of :: "string option \<Rightarrow> string" where
  \<comment> \<open>how an f-string shows a \<^verbatim>\<open>str | None\<close>\<close>
  "str_of v = (case v of None \<Rightarrow> ''None'' | Some s \<Rightarrow> s)"

definition caught_by_prompt :: "exn \<Rightarrow> bool" where
  \<comment> \<open>\<^verbatim>\<open>except (EOFError, ValueError, IndexError)\<close>\<close>
  "caught_by_prompt e = (e = Py EOFError \<or> e = Py ValueError \<or> e = Py IndexError)"

definition prompt_choice :: "config \<Rightarrow> env \<Rightarrow> string option comp" where
  \<comment> \<open>\<^verbatim>\<open>PRINTERS[int(input())]\<close>\<close>
  "prompt_choice cfg en =
     seq (py_input en []) (\<lambda>line.
       case int_of_str line of
         Inl e \<Rightarrow> throw (Py e)
       | Inr i \<Rightarrow>
           (case py_index (PRINTERS cfg) i of
              Inl e \<Rightarrow> throw (Py e)
            | Inr p \<Rightarrow> ret (Some p)))"

definition get_printer_name :: "config \<Rightarrow> env \<Rightarrow> string option comp" where
  "get_printer_name cfg en =
     (if truthy (EXPECTED_PRINTER cfg) \<and> expected_in (EXPECTED_PRINTER cfg) (PRINTERS cfg)
      then ret (EXPECTED_PRINTER cfg)
      else
        seq (if truthy (EXPECTED_PRINTER cfg)
             then py_print (''EXPECTED PRINTER NOT FOUND ('' @ str_of (EXPECTED_PRINTER cfg) @ '')'')
             else ret ()) (\<lambda>_.
        seq (py_print ''CHOOSE PRINTER OR QUIT'') (\<lambda>_.
        seq (print_menu 0 (PRINTERS cfg @ [''QUIT''])) (\<lambda>_.
        try_except (prompt_choice cfg en) caught_by_prompt (ret None)))))"

fun node_name :: "node \<Rightarrow> string" where
  "node_name (File nm) = nm"
| "node_name (Dir nm sub) = nm"

fun node_dirs :: "path \<Rightarrow> node \<Rightarrow> (path \<times> node list) list" where
  \<comment> \<open>the directories at and below an entry, parents first, each with its entries\<close>
  "node_dirs parent (File nm) = []"
| "node_dirs parent (Dir nm sub) =
     (parent @ [nm], sub) # concat (map (node_dirs (parent @ [nm])) sub)"

definition iterate_directories :: "node list \<Rightarrow> (path \<times> node list) list" where
  "iterate_directories ns = ([], ns) # concat (map (node_dirs []) ns)"

definition rglob_star :: "node list \<Rightarrow> path list" where
  \<comment> \<open>\<^verbatim>\<open>Path(".").rglob("*")\<close>: every entry of every directory, files and directories alike\<close>
  "rglob_star ns =
     concat (map (\<lambda>(d, entries). map (\<lambda>n. d @ [node_name n]) entries) (iterate_directories ns))"

definition select_paths :: "config \<Rightarrow> env \<Rightarrow> path list" where
  \<comment> \<open>\<^verbatim>\<open>tuple(path for path in Path(".").rglob("*") if path.suffix in PRINTABLE_EXTS)\<close>\<close>
  "select_paths cfg en = filter (\<lambda>p. path_suffix p \<in> set (PRINTABLE_EXTS cfg)) (rglob_star (files en))"

definition main :: "config \<Rightarrow> env \<Rightarrow> unit comp" where
  "main cfg en =
     seq (get_printer_name cfg en) (\<lambda>printer_name.
     seq (case printer_name of
            Some n \<Rightarrow> if n \<noteq> [] then send en (select_paths cfg en) n (MSG cfg) False
                      else py_print ''NO PRINTER SELECTED''
          | None \<Rightarrow> py_print ''NO PRINTER SELECTED'') (\<lambda>_.
     seq (py_print ''WORK COMPLETE'') (\<lambda>_.
     seq (py_input en (''PRESS ENTER TO QUIT'' @ [CHR 0x0A])) (\<lambda>_.
     ret ()))))"

text \<open>
  What the prompt of \<^verbatim>\<open>get_printer_name\<close> writes before it reads, and the printer that an
  answer selects.
\<close>

fun menu_events :: "nat \<Rightarrow> string list \<Rightarrow> event list" where
  "menu_events no [] = []"
| "menu_events no (choice # choices) =
     (Print (show_nat no @ ''. '' @ choice), True) # menu_events (Suc no) choices"

definition prompt_events :: "config \<Rightarrow> event list" where
  "prompt_events cfg =
     (if truthy (EXPECTED_PRINTER cfg)
      then [(Print (''EXPECTED PRINTER NOT FOUND ('' @ str_of (EXPECTED_PRINTER cfg) @ '')''), True)]
      else [])
     @ [(Print ''CHOOSE PRINTER OR QUIT'', True)]
     @ menu_events 0 (PRINTERS cfg @ [''QUIT''])"

definition selection :: "config \<Rightarrow> string option \<Rightarrow> string option" where
  "selection cfg a =
     (case a of
        None \<Rightarrow> None
      | Some line \<Rightarrow>
          (case int_of_str line of
             Inl e \<Rightarrow> None
           | Inr i \<Rightarrow> (case py_index (PRINTERS cfg) i of Inl e \<Rightarrow> None | Inr p \<Rightarrow> Some p)))"

definition prompted :: "config \<Rightarrow> bool" where
  \<comment> \<open>no configured target, or one that is not installed\<close>
  "prompted cfg = (\<not> (truthy (EXPECTED_PRINTER cfg) \<and> expected_in (EXPECTED_PRINTER cfg) (PRINTERS cfg)))"

text \<open>
  The entries of the directory tree: every file and directory below the root, and the
  regular files among them.
\<close>

fun entries :: "path \<Rightarrow> node \<Rightarrow> path list" where
  "entries parent (File nm) = [parent @ [nm]]"
| "entries parent (Dir nm sub) = (parent @ [nm]) # concat (map (entries (parent @ [nm])) sub)"

definition all_entries :: "node list \<Rightarrow> path list" where
  "all_entries ns = concat (map (entries []) ns)"

fun regular_files :: "path \<Rightarrow> node \<Rightarrow> path list" where
  "regular_files parent (File nm) = [parent @ [nm]]"
| "regular_files parent (Dir nm sub) = concat (map (regular_files (parent @ [nm])) sub)"

definition all_regular_files :: "node list \<Rightarrow> path list" where
  "all_regular_files ns = concat (map (regular_files []) ns)"

definition listing :: "(path \<times> node list) list \<Rightarrow> path list" where
  \<comment> \<open>the entries of the given directories, directory by directory\<close>
  "listing ds = concat (map (\<lambda>(d, es). map (\<lambda>n. d @ [node_name n]) es) ds)"

subsection \<open>The print job protocol\<close>

text \<open>
  The states of a print job on a device context, as the specification names them, and
  the effect of each device call on them. A call that raised \<^verbatim>\<open>StartDoc\<close> or \<^verbatim>\<open>StartPage\<close>
  has started nothing; \<^verbatim>\<open>EndPage\<close> and \<^verbatim>\<open>EndDoc\<close> count once issued. Any other order of job
  calls, and drawing outside a started page, leads to \<open>Broken\<close>. Calls that are not job
  calls leave the state alone.
\<close>

datatype job_state = Idle | NotStarted | DocumentStarted | PageStarted | DocumentEnded | Broken

fun job_call :: "call \<Rightarrow> bool" where
  "job_call (StartDoc nm) = True"
| "job_call EndDoc = True"
| "job_call StartPage = True"
| "job_call EndPage = True"
| "job_call (Draw d ho r) = True"
| "job_call c = False"

fun is_StartDoc :: "call \<Rightarrow> bool" where
  "is_StartDoc (StartDoc nm) = True"
| "is_StartDoc c = False"

fun is_Draw :: "call \<Rightarrow> bool" where
  "is_Draw (Draw d ho r) = True"
| "is_Draw c = False"

definition job_step :: "job_state \<Rightarrow> event \<Rightarrow> job_state" where
  "job_step s ev =
     (if \<not> job_call (fst ev) then s
      else if s = Idle \<and> is_StartDoc (fst ev) then (if snd ev then DocumentStarted else NotStarted)
      else if s = DocumentStarted \<and> fst ev = StartPage
        then (if snd ev then PageStarted else DocumentStarted)
      else if s = PageStarted \<and> is_Draw (fst ev) then PageStarted
      else if s = PageStarted \<and> fst ev = EndPage then DocumentStarted
      else if s = DocumentStarted \<and> fst ev = EndDoc then DocumentEnded
      else Broken)"

definition job_run :: "job_state \<Rightarrow> event list \<Rightarrow> job_state" where
  "job_run s evs = foldl job_step s evs"

text \<open>
  Two ways to speak about what a computation adds to the run: \<open>yields c P Q\<close> says that,
  whatever happened before, \<open>c\<close> only appends events, that the appended events satisfy
  \<open>P\<close> and that a returned value satisfies \<open>Q\<close>; \<open>stays s c\<close> says that the appended events
  lead the print job from state \<open>s\<close> back to \<open>s\<close>.
\<close>

definition yields :: "'a comp \<Rightarrow> (event list \<Rightarrow> bool) \<Rightarrow> ('a \<Rightarrow> bool) \<Rightarrow> bool" where
  "yields c P Q = (\<forall>tr. \<exists>evs. snd (c tr) = tr @ evs \<and> P evs \<and> (\<forall>x. fst (c tr) = Inr x \<longrightarrow> Q x))"

definition run_closed :: "(event list \<Rightarrow> bool) \<Rightarrow> bool" where
  "run_closed P = (P [] \<and> (\<forall>a b. P a \<longrightarrow> P b \<longrightarrow> P (a @ b)))"

definition stays :: "job_state \<Rightarrow> 'a comp \<Rightarrow> bool" where
  "stays s c = yields c (\<lambda>evs. job_run s evs = s) (\<lambda>x. True)"

subsection \<open>Bitmaps that reach the drawing primitive\<close>

definition post_process :: "image \<Rightarrow> image" where
  \<comment> \<open>the post-processing rule of the specification's Bitmap Converter: convert to RGB;
      if width > height, rotate 90 degrees\<close>
  "post_process im =
     (let bmp = convert_RGB im
      in if fst (img_size bmp) > snd (img_size bmp) then rotate_90 bmp else bmp)"

definition drawn :: "event list \<Rightarrow> dib list" where
  \<comment> \<open>the bitmaps handed to \<^verbatim>\<open>dib.draw\<close>, in order\<close>
  "drawn evs = concat (map (\<lambda>ev. case fst ev of Draw d ho r \<Rightarrow> [d] | _ \<Rightarrow> []) evs)"

definition sources :: "env \<Rightarrow> path \<Rightarrow> image set" where
  \<comment> \<open>what the decoders deliver for a file: the pages of a PDF, or the one image\<close>
  "sources en p = (if path_suffix p = ''.pdf'' then set (pdf_pages en p) else {image_file en p})"

fun item_from :: "env \<Rightarrow> dib set \<Rightarrow> item \<Rightarrow> bool" where
  \<comment> \<open>the bitmap an item of \<^verbatim>\<open>Document.send\<close> stands for belongs to \<open>D\<close>\<close>
  "item_from en D (ItemDib d) = (d \<in> D)"
| "item_from en D (ItemPath p) = (Dib (post_process (image_file en p)) \<in> D)"

fun is_Rotate :: "call \<Rightarrow> bool" where
  "is_Rotate (Rotate im) = True"
| "is_Rotate c = False"

definition rotations :: "event list \<Rightarrow> nat" where
  "rotations evs = length (filter (\<lambda>ev. is_Rotate (fst ev)) evs)"

definition wider_than_tall :: "image \<Rightarrow> bool" where
  "wider_than_tall im = (fst (img_size im) > snd (img_size im))"

subsection \<open>The device context\<close>

fun is_Startfile :: "call \<Rightarrow> bool" where
  "is_Startfile (Startfile p) = True"
| "is_Startfile c = False"

definition handed_to_shell :: "event list \<Rightarrow> bool" where
  \<comment> \<open>some file was passed to \<^verbatim>\<open>startfile(path, "print")\<close>\<close>
  "handed_to_shell evs = (\<exists>ev\<in>set evs. is_Startfile (fst ev))"

definition closes :: "event list \<Rightarrow> nat" where
  \<comment> \<open>how often \<^verbatim>\<open>DeleteDC\<close> was called\<close>
  "closes evs = length (filter (\<lambda>ev. fst ev = DeleteDC) evs)"

definition resolved_name :: "env \<Rightarrow> string \<Rightarrow> string" where
  \<comment> \<open>\<^verbatim>\<open>name if name else GetDefaultPrinter()\<close>\<close>
  "resolved_name en nm = (if nm \<noteq> [] then nm else default_printer en)"

subsection \<open>A sample printer, document and environment\<close>

definition sample_page :: "int \<times> int \<Rightarrow> image" where
  "sample_page sz = \<lparr>img_mode = ''RGB'', img_size = sz, img_turns = 0\<rparr>"

definition sample_printer :: printer where
  "sample_printer = \<lparr>name = ''Office'', paper_width = 10, paper_height = 20, handle = 7\<rparr>"

definition draws_so_far :: "trace \<Rightarrow> nat" where
  "draws_so_far tr = length (filter (\<lambda>ev. is_Draw (fst ev)) tr)"

definition sample_env :: env where
  \<comment> \<open>a three-page PDF, an image file, and a device on which the second drawing raises\<close>
  "sample_env =
     \<lparr>raises = (\<lambda>tr c. is_Draw c \<and> draws_so_far tr = 1),
      default_printer = ''Office'',
      device_caps = (\<lambda>n i. if i = PAPER_WIDTH_IDX then 10 else 20),
      handle_output = (\<lambda>n. 7),
      image_file = (\<lambda>p. \<lparr>img_mode = ''L'', img_size = (20, 10), img_turns = 0\<rparr>),
      pdf_pages = (\<lambda>p. [sample_page (10, 20), sample_page (20, 10), sample_page (10, 20)]),
      stdin = [],
      files = [File ''x.pdf'', File ''y.png'', Dir ''z'' [File ''w.pdf'']]\<rparr>"

definition offline_env :: env where
  \<comment> \<open>the same world with no device context to be had for any printer\<close>
  "offline_env = sample_env\<lparr>raises := (\<lambda>tr c. case c of CreatePrinterDC n \<Rightarrow> True | _ \<Rightarrow> False)\<rparr>"

definition calm_env :: env where
  \<comment> \<open>the same world with no call raising\<close>
  "calm_env = sample_env\<lparr>raises := (\<lambda>tr c. False)\<rparr>"

definition console :: "string option list \<Rightarrow> env" where
  \<comment> \<open>the calm world with the given answers at the console\<close>
  "console answers = calm_env\<lparr>stdin := answers\<rparr>"

definition sample_config :: config where
  \<comment> \<open>printers A and B installed, printer C configured\<close>
  "sample_config = (source_config [''A'', ''B''])\<lparr>EXPECTED_PRINTER := Some ''C''\<rparr>"

definition pdf_named_directory :: "node list" where
  \<comment> \<open>a directory whose name ends in \<^verbatim>\<open>.pdf\<close>, holding one picture\<close>
  "pdf_named_directory = [Dir ''scans.pdf'' [File ''a.png'']]"

section \<open>Properties\<close>

subsection \<open>Rounding to a double\<close>

lemma bitlen_rat_bounds:
  assumes "0 < p"
  shows "(2::rat) powi (bitlen p - 1) \<le> of_int p" and "of_int p < (2::rat) powi (bitlen p)"
proof -
  have b1: "1 \<le> bitlen p" using assms by (simp add: bitlen_alt_def)
  have lo: "2 ^ nat (bitlen p - 1) \<le> p" and hi: "p < 2 ^ nat (bitlen p)"
    using bitlen_bounds[OF assms] by simp_all
  have "(2::rat) powi (bitlen p - 1) = of_int (2 ^ nat (bitlen p - 1))"
    using b1 by (simp add: power_int_nonneg_exp)
  also have "\<dots> \<le> of_int p" using lo by (simp only: of_int_le_iff)
  finally show "(2::rat) powi (bitlen p - 1) \<le> of_int p" .
  have "(of_int p :: rat) < of_int (2 ^ nat (bitlen p))" using hi by (simp only: of_int_less_iff)
  also have "\<dots> = (2::rat) powi (bitlen p)"
    using b1 by (simp add: power_int_nonneg_exp)
  finally show "of_int p < (2::rat) powi (bitlen p)" .
qed

lemma flog2_bounds:
  assumes "0 < x"
  shows "2 powi (flog2 x) \<le> x" and "x < 2 powi (flog2 x + 1)"
proof -
  obtain p q where pq: "quotient_of x = (p, q)" by (cases "quotient_of x")
  have q: "0 < q" using quotient_of_denom_pos[OF pq] .
  have x: "x = of_int p / of_int q" using quotient_of_div[OF pq] .
  have p: "0 < p" using assms q unfolding x by (simp add: zero_less_divide_iff)
  define k where "k = bitlen p - bitlen q"
  note bp = bitlen_rat_bounds[OF p] and bq = bitlen_rat_bounds[OF q]
  have pos: "(0::rat) < 2 powi n" for n by (simp add: zero_less_power_int)
  have "x < 2 powi (bitlen p) / 2 powi (bitlen q - 1)"
    unfolding x using p q bp bq pos by (intro frac_less) simp_all
  also have "\<dots> = 2 powi (k + 1)"
    by (simp add: k_def power_int_diff[symmetric] algebra_simps)
  finally have up: "x < 2 powi (k + 1)" .
  have "2 powi (k - 1) = (2::rat) powi (bitlen p - 1) / 2 powi (bitlen q)"
    by (simp add: k_def power_int_diff[symmetric] algebra_simps)
  also have "\<dots> \<le> x"
    unfolding x using p q bp bq pos by (intro frac_le) simp_all
  finally have lo: "2 powi (k - 1) \<le> x" .
  have fl: "flog2 x = (if 2 powi k \<le> x then k else k - 1)"
    by (simp add: flog2_def pq k_def)
  show "2 powi (flog2 x) \<le> x" using lo by (simp add: fl)
  show "x < 2 powi (flog2 x + 1)" using up by (auto simp add: fl)
qed

lemma round_half_even_err: "\<bar>of_int (round_half_even y) - y\<bar> \<le> 1 / 2"
proof -
  have f: "of_int \<lfloor>y\<rfloor> \<le> y" "y < of_int \<lfloor>y\<rfloor> + 1" by linarith+
  show ?thesis
    unfolding round_half_even_def Let_def using f by (simp split: if_splits)
qed

lemma round_half_even_int: "round_half_even (of_int m) = m"
  by (simp add: round_half_even_def)

lemma round_half_even_nonneg: "0 \<le> y \<Longrightarrow> 0 \<le> round_half_even y"
  by (auto simp add: round_half_even_def Let_def)

lemma two_powi_pos: "(0::rat) < 2 powi n"
  by (simp add: zero_less_power_int)

lemma round_pos_err:
  assumes "0 < x"
  shows "\<bar>round_pos x - x\<bar> \<le> x / 2 ^ 53"
proof -
  define e where "e = flog2 x - 52"
  define y where "y = x / 2 powi e"
  have pe: "(0::rat) < 2 powi e" by (rule two_powi_pos)
  have xy: "x = y * 2 powi e" using pe by (simp add: y_def)
  have "(2::rat) powi e * 2 ^ 52 = 2 powi e * 2 powi 52" by simp
  also have "\<dots> = 2 powi (flog2 x)"
    unfolding e_def by (subst power_int_add[symmetric]) simp_all
  also have "\<dots> \<le> x" using flog2_bounds(1)[OF assms] .
  finally have big: "(2::rat) powi e * 2 ^ 52 \<le> x" .
  have "round_pos x = of_int (round_half_even y) * 2 powi e"
    by (simp add: round_pos_def e_def y_def Let_def)
  then have "round_pos x - x = (of_int (round_half_even y) - y) * 2 powi e"
    by (simp add: left_diff_distrib xy[symmetric])
  then have "\<bar>round_pos x - x\<bar> = \<bar>of_int (round_half_even y) - y\<bar> * 2 powi e"
    using pe by (simp add: abs_mult)
  also have "\<dots> \<le> (1 / 2) * 2 powi e"
    using round_half_even_err[of y] pe by (intro mult_right_mono) simp_all
  also have "\<dots> \<le> x / 2 ^ 53" using big by simp
  finally show ?thesis .
qed

lemma round_pos_nonneg: "0 < x \<Longrightarrow> 0 \<le> round_pos x"
  unfolding round_pos_def Let_def
  by (intro mult_nonneg_nonneg) (simp_all add: round_half_even_nonneg less_imp_le two_powi_pos)

lemma round_pos_exact:
  assumes m: "0 < m" "m < 2 ^ 53"
  shows "round_pos (of_int m * 2 powi j) = of_int m * 2 powi j"
proof -
  define x :: rat where "x = of_int m * 2 powi j"
  define e where "e = flog2 x - 52"
  have xpos: "0 < x" using m by (simp add: x_def two_powi_pos)
  have "x < 2 ^ 53 * 2 powi j"
    unfolding x_def using m two_powi_pos[of j] by (intro mult_strict_right_mono) simp_all
  also have "\<dots> = 2 powi (53 + j)"
    by (subst power_int_add) simp_all
  finally have lt: "(2::rat) powi (flog2 x) < 2 powi (53 + j)"
    using flog2_bounds(1)[OF xpos] by simp
  have "flog2 x < 53 + j"
  proof (rule ccontr)
    assume "\<not> flog2 x < 53 + j"
    then have "53 + j \<le> flog2 x" by simp
    from power_int_increasing[OF this, of "2::rat"] lt show False by simp
  qed
  then have ej: "0 \<le> j - e" by (simp add: e_def)
  have "x / 2 powi e = of_int m * 2 powi (j - e)"
    by (simp add: x_def power_int_diff)
  also have "\<dots> = of_int (m * 2 ^ nat (j - e))"
    using ej by (simp add: power_int_nonneg_exp)
  finally have "round_half_even (x / 2 powi e) = m * 2 ^ nat (j - e)"
    by (simp only: round_half_even_int)
  then have "round_pos x = of_int (m * 2 ^ nat (j - e)) * 2 powi e"
    by (simp add: round_pos_def e_def Let_def)
  also have "\<dots> = of_int m * (2 powi (j - e) * 2 powi e)"
    using ej by (simp add: power_int_nonneg_exp)
  also have "2 powi (j - e) * 2 powi e = (2::rat) powi j"
    by (subst power_int_add[symmetric]) simp_all
  finally show ?thesis by (simp add: x_def)
qed

lemma to_double_pos: "0 < x \<Longrightarrow> to_double x = round_pos x"
  by (simp add: to_double_def)

lemma to_double_neg: "x < 0 \<Longrightarrow> to_double x = - round_pos (- x)"
  by (simp add: to_double_def)

lemma to_double_nonneg: "0 \<le> x \<Longrightarrow> 0 \<le> to_double x"
  by (simp add: to_double_def round_pos_nonneg)

lemma to_double_le:
  assumes "0 \<le> x"
  shows "to_double x \<le> x * (1 + 1 / 2 ^ 53)"
proof (cases "x = 0")
  case True
  then show ?thesis by (simp add: to_double_def)
next
  case False
  with assms have "0 < x" by simp
  then have "to_double x = round_pos x" by (simp add: to_double_def)
  moreover have "round_pos x - x \<le> x / 2 ^ 53"
    using round_pos_err[OF \<open>0 < x\<close>] by linarith
  ultimately show ?thesis by (simp add: algebra_simps)
qed

lemma to_double_exact:
  assumes "\<bar>m\<bar> < 2 ^ 53"
  shows "to_double (of_int m * 2 powi j) = of_int m * 2 powi j"
proof -
  consider "m = 0" | "0 < m" | "m < 0" by linarith
  then show ?thesis
  proof cases
    case 1
    then show ?thesis by (simp add: to_double_def)
  next
    case 2
    then have "0 < of_int m * (2::rat) powi j" by (simp add: two_powi_pos)
    then have "to_double (of_int m * 2 powi j) = round_pos (of_int m * 2 powi j)"
      by (rule to_double_pos)
    also have "\<dots> = of_int m * 2 powi j"
      using 2 assms by (intro round_pos_exact) simp_all
    finally show ?thesis .
  next
    case 3
    then have neg: "of_int m * (2::rat) powi j < 0"
      by (simp add: mult_less_0_iff two_powi_pos)
    have "round_pos (of_int (- m) * 2 powi j) = of_int (- m) * 2 powi j"
      using 3 assms by (intro round_pos_exact) simp_all
    then have "round_pos (- (of_int m * 2 powi j)) = - (of_int m * 2 powi j)"
      by simp
    moreover have "to_double (of_int m * 2 powi j) = - round_pos (- (of_int m * 2 powi j))"
      using neg by (rule to_double_neg)
    ultimately show ?thesis by simp
  qed
qed

lemma to_double_of_int: "\<bar>m\<bar> < 2 ^ 53 \<Longrightarrow> to_double (of_int m) = of_int m"
  using to_double_exact[of m 0] by simp

lemma to_double_half: "\<bar>m\<bar> < 2 ^ 53 \<Longrightarrow> to_double (of_int m / 2) = of_int m / 2"
  using to_double_exact[of m "- 1"] by (simp add: power_int_minus field_simps)

subsection \<open>What a computation adds to the run\<close>

lemma yieldsD:
  "yields c P Q \<Longrightarrow> \<exists>evs. snd (c tr) = tr @ evs \<and> P evs \<and> (\<forall>x. fst (c tr) = Inr x \<longrightarrow> Q x)"
  unfolding yields_def by blast

lemma yieldsI:
  assumes "\<And>tr. \<exists>evs. snd (c tr) = tr @ evs \<and> P evs \<and> (\<forall>x. fst (c tr) = Inr x \<longrightarrow> Q x)"
  shows "yields c P Q"
  using assms unfolding yields_def by blast

lemma yields_ret: "P [] \<Longrightarrow> Q x \<Longrightarrow> yields (ret x) P Q"
  by (simp add: yields_def ret_def)

lemma yields_throw: "P [] \<Longrightarrow> yields (throw e) P Q"
  by (simp add: yields_def throw_def)

lemma yields_ext: "P [(c, True)] \<Longrightarrow> P [(c, False)] \<Longrightarrow> Q v \<Longrightarrow> yields (ext en c v) P Q"
  by (simp add: yields_def ext_def)

lemma yields_weaken:
  assumes "yields c P Q" "\<And>evs. P evs \<Longrightarrow> P' evs" "\<And>x. Q x \<Longrightarrow> Q' x"
  shows "yields c P' Q'"
  using assms unfolding yields_def by meson

lemma yields_seq:
  assumes cl: "run_closed P" and m: "yields m P Q" and f: "\<And>x. Q x \<Longrightarrow> yields (f x) P R"
  shows "yields (seq m f) P R"
proof (rule yieldsI)
  fix tr
  from yieldsD[OF m, of tr] obtain evs where evs: "snd (m tr) = tr @ evs" "P evs"
    and q: "\<And>x. fst (m tr) = Inr x \<Longrightarrow> Q x"
    by blast
  show "\<exists>evs. snd (seq m f tr) = tr @ evs \<and> P evs \<and> (\<forall>x. fst (seq m f tr) = Inr x \<longrightarrow> R x)"
  proof (cases "fst (m tr)")
    case (Inl e)
    then have "seq m f tr = (Inl e, tr @ evs)"
      using evs(1) by (cases "m tr") (simp add: seq_def)
    with evs(2) show ?thesis by auto
  next
    case (Inr x)
    from yieldsD[OF f[OF q[OF Inr]], of "tr @ evs"] obtain evs' where evs': "snd (f x (tr @ evs)) = (tr @ evs) @ evs'" "P evs'"
      and r: "\<And>y. fst (f x (tr @ evs)) = Inr y \<Longrightarrow> R y"
      by blast
    have eq: "seq m f tr = f x (tr @ evs)"
      using Inr evs(1) by (cases "m tr") (simp add: seq_def)
    have "P (evs @ evs')" using cl evs(2) evs'(2) by (simp add: run_closed_def)
    with eq evs'(1) r show ?thesis by auto
  qed
qed

lemma yields_with:
  assumes cl: "run_closed P" and en: "yields enter P Q"
      and bd: "\<And>x. Q x \<Longrightarrow> yields (body x) P R" and ex: "yields exit P (\<lambda>u. True)"
  shows "yields (with_stmt enter exit body) P R"
proof (rule yieldsI)
  fix tr
  let ?w = "with_stmt enter exit body"
  from yieldsD[OF en, of tr] obtain e1 where e1: "snd (enter tr) = tr @ e1" "P e1"
    and q: "\<And>x. fst (enter tr) = Inr x \<Longrightarrow> Q x"
    by blast
  show "\<exists>evs. snd (?w tr) = tr @ evs \<and> P evs \<and> (\<forall>x. fst (?w tr) = Inr x \<longrightarrow> R x)"
  proof (cases "fst (enter tr)")
    case (Inl e)
    then have "?w tr = (Inl e, tr @ e1)"
      using e1(1) by (cases "enter tr") (simp add: with_stmt_def)
    with e1(2) show ?thesis by auto
  next
    case (Inr x)
    from yieldsD[OF bd[OF q[OF Inr]], of "tr @ e1"] obtain e2 where e2: "snd (body x (tr @ e1)) = (tr @ e1) @ e2" "P e2"
      and r: "\<And>y. fst (body x (tr @ e1)) = Inr y \<Longrightarrow> R y"
      by blast
    from yieldsD[OF ex, of "(tr @ e1) @ e2"] obtain e3 where e3: "snd (exit ((tr @ e1) @ e2)) = ((tr @ e1) @ e2) @ e3" "P e3"
      by blast
    have p: "P (e1 @ e2 @ e3)" using cl e1(2) e2(2) e3(2) by (simp add: run_closed_def)
    have tr3: "snd (?w tr) = tr @ (e1 @ e2 @ e3)"
      using Inr e1(1) e2(1) e3(1)
      by (cases "enter tr"; cases "body x (tr @ e1)"; cases "exit ((tr @ e1) @ e2)")
         (auto simp: with_stmt_def split: sum.splits)
    have "fst (?w tr) = Inr y \<Longrightarrow> fst (body x (tr @ e1)) = Inr y" for y
      using Inr e1(1) e2(1)
      by (cases "enter tr"; cases "body x (tr @ e1)"; cases "exit ((tr @ e1) @ e2)")
         (auto simp: with_stmt_def split: sum.splits)
    with r have "\<forall>y. fst (?w tr) = Inr y \<longrightarrow> R y" by blast
    with tr3 p show ?thesis by blast
  qed
qed

lemma yields_print_template:
  "P [(PrintTemplate msg pn p, True)] \<Longrightarrow> Q () \<Longrightarrow> yields (print_template msg pn p) P Q"
  by (simp add: yields_def print_template_def)

lemma yields_py_print: "P [(Print s, True)] \<Longrightarrow> Q () \<Longrightarrow> yields (py_print s) P Q"
  by (simp add: yields_def py_print_def)

subsection \<open>The page fitter\<close>

lemma py_int_nonneg: "0 \<le> x \<Longrightarrow> py_int x = \<lfloor>x\<rfloor>"
  by (simp add: py_int_def)

lemma scaled_within:
  assumes w: "0 < w" "w < 2 ^ 31" and W: "0 < W" "W < 2 ^ 31"
      and s: "0 \<le> s" "s \<le> to_double (of_int W / of_int w)"
  shows "0 \<le> py_int (float_mul w s)" and "py_int (float_mul w s) \<le> W"
proof -
  let ?u = "1 + 1 / 2 ^ 53 :: rat"
  have fw: "float_of_int w = of_int w"
    unfolding float_of_int_def using w by (intro to_double_of_int) simp
  have q0: "(0::rat) \<le> of_int W / of_int w" using w W by simp
  have "s \<le> (of_int W / of_int w) * ?u"
    using s(2) to_double_le[OF q0] by linarith
  then have "of_int w * s \<le> of_int w * ((of_int W / of_int w) * ?u)"
    using w by (intro mult_left_mono) simp_all
  also have "\<dots> = of_int W * ?u" using w by simp
  finally have ws: "of_int w * s \<le> of_int W * ?u" .
  have p0: "0 \<le> of_int w * s" using w s(1) by simp
  have r0: "0 \<le> float_mul w s"
    unfolding float_mul_def fw by (rule to_double_nonneg[OF p0])
  have "float_mul w s \<le> (of_int w * s) * ?u"
    unfolding float_mul_def fw by (rule to_double_le[OF p0])
  also have "\<dots> \<le> (of_int W * ?u) * ?u"
    using ws by (intro mult_right_mono) simp_all
  also have "\<dots> < of_int W + 1"
  proof -
    have "(of_int W :: rat) < 2 ^ 31" using W by (metis of_int_less_numeral_power_cancel_iff)
    then show ?thesis by (simp add: field_simps)
  qed
  finally have "float_mul w s < of_int (W + 1)" by simp
  then have lt: "\<lfloor>float_mul w s\<rfloor> < W + 1" by (simp only: floor_less_iff)
  show "0 \<le> py_int (float_mul w s)" using r0 by (simp add: py_int_nonneg)
  show "py_int (float_mul w s) \<le> W"
    using r0 lt by (simp add: py_int_nonneg)
qed

lemma centred_within:
  assumes "0 \<le> k" "k \<le> W" "W < 2 ^ 31"
  shows "0 \<le> py_int (to_double (of_int (W - k) / 2))"
    and "py_int (to_double (of_int (W - k) / 2)) + k \<le> W"
proof -
  have "\<bar>W - k\<bar> < 2 ^ 53" using assms by simp
  then have e: "to_double (of_int (W - k) / 2) = of_int (W - k) / 2" by (rule to_double_half)
  have n: "(0::rat) \<le> of_int (W - k) / 2" using assms by simp
  have f: "\<lfloor>(of_int (W - k) :: rat) / 2\<rfloor> = (W - k) div 2"
    by (metis floor_divide_of_int_eq of_int_numeral)
  show "0 \<le> py_int (to_double (of_int (W - k) / 2))"
    unfolding e using n assms by (simp add: py_int_nonneg f del: of_int_diff)
  show "py_int (to_double (of_int (W - k) / 2)) + k \<le> W"
    unfolding e using n assms by (simp add: py_int_nonneg f del: of_int_diff)
qed

text \<open>
  C2. For bitmap sizes \<open>(w, h)\<close> and paper sizes \<open>(W, H)\<close> that are positive (and 32-bit, as
  the sizes PIL and \<^verbatim>\<open>GetDeviceCaps\<close> deliver are), \<^verbatim>\<open>fit_dib\<close> returns a rectangle
  \<open>(x1, y1, x2, y2)\<close> with \<open>0 \<le> x1 \<le> x2 \<le> W\<close> and \<open>0 \<le> y1 \<le> y2 \<le> H\<close>: it lies within the paper.
\<close>

theorem fit_dib_within_paper:
  assumes w: "0 < w" "w < 2 ^ 31" and h: "0 < h" "h < 2 ^ 31"
      and W: "0 < W" "W < 2 ^ 31" and H: "0 < H" "H < 2 ^ 31"
      and pr: "paper_width pr = W" "paper_height pr = H" and d: "dib_size d = (w, h)"
  shows "\<exists>x1 y1 x2 y2. fit_dib pr d = Inr (x1, y1, x2, y2) \<and>
           0 \<le> x1 \<and> x1 \<le> x2 \<and> x2 \<le> W \<and> 0 \<le> y1 \<and> y1 \<le> y2 \<and> y2 \<le> H"
proof -
  define a where "a = to_double (of_int W / of_int w)"
  define b where "b = to_double (of_int H / of_int h)"
  define s where "s = py_min2 a b"
  define width where "width = py_int (float_mul w s)"
  define height where "height = py_int (float_mul h s)"
  define x1 where "x1 = py_int (to_double (of_int (W - width) / 2))"
  define y1 where "y1 = py_int (to_double (of_int (H - height) / 2))"
  have a0: "0 \<le> a" unfolding a_def using w W by (intro to_double_nonneg) simp
  have b0: "0 \<le> b" unfolding b_def using h H by (intro to_double_nonneg) simp
  have s0: "0 \<le> s" and sa: "s \<le> a" and sb: "s \<le> b"
    using a0 b0 by (simp_all add: s_def py_min2_def)
  have wd: "0 \<le> width" "width \<le> W"
    unfolding width_def by (rule scaled_within[OF w W s0 sa[unfolded a_def]])+
  have ht: "0 \<le> height" "height \<le> H"
    unfolding height_def by (rule scaled_within[OF h H s0 sb[unfolded b_def]])+
  have x: "0 \<le> x1" "x1 + width \<le> W"
    unfolding x1_def by (rule centred_within[OF wd W(2)])+
  have y: "0 \<le> y1" "y1 + height \<le> H"
    unfolding y1_def by (rule centred_within[OF ht H(2)])+
  have "fit_dib pr d = Inr (x1, y1, x1 + width, y1 + height)"
    using w h by (simp add: fit_dib_def truediv_def Let_def pr d a_def b_def s_def width_def
        height_def x1_def y1_def del: of_int_diff)
  then show ?thesis using wd ht x y by simp
qed

theorem fit_dib_within_paper_witness:
  "\<exists>x1 y1 x2 y2.
     fit_dib \<lparr>name = ''PDF'', paper_width = 4961, paper_height = 7016, handle = 0\<rparr>
       (Dib \<lparr>img_mode = ''RGB'', img_size = (1240, 1754), img_turns = 0\<rparr>) = Inr (x1, y1, x2, y2) \<and>
     0 \<le> x1 \<and> x1 \<le> x2 \<and> x2 \<le> 4961 \<and> 0 \<le> y1 \<and> y1 \<le> y2 \<and> y2 \<le> 7016"
  using fit_dib_within_paper[of 1240 1754 4961 7016
      "\<lparr>name = ''PDF'', paper_width = 4961, paper_height = 7016, handle = 0\<rparr>"
      "Dib \<lparr>img_mode = ''RGB'', img_size = (1240, 1754), img_turns = 0\<rparr>"]
  by (simp add: dib_size_def)

text \<open>
  A 3 by 2 bitmap on a 10 by 11 sheet. The scale is the double nearest to 10/3, the
  scaled height is the double 6.666..., which \<^verbatim>\<open>int\<close> cuts to 6 and rounding to the nearest
  integer would take to 7.
\<close>

lemma round_half_even_numeral:
  "round_half_even (numeral n) = numeral n" "round_half_even 0 = 0"
  using round_half_even_int[of "numeral n"] round_half_even_int[of 0] by simp_all

lemma to_double_0: "to_double 0 = 0"
  by (simp add: to_double_def)

lemma fit_3_2_on_10_11:
  "fit_dib \<lparr>name = ''P'', paper_width = 10, paper_height = 11, handle = 0\<rparr>
     (Dib \<lparr>img_mode = ''RGB'', img_size = (3, 2), img_turns = 0\<rparr>) = Inr (0, 2, 10, 8)"
  by code_simp

lemma fit_spec_nearest_3_2_on_10_11:
  "fit_spec round_half_even (10, 11) (3, 2) = (0, 2, 10, 9)"
proof -
  have d1: "to_double (10 / 3) = 7505999378950827 / 2251799813685248"
    by code_simp
  have d2: "to_double (11 / 2) = 11 / 2"
    using to_double_half[of 11] by simp
  have d3: "to_double 3 = 3" "to_double 2 = 2"
    using to_double_of_int[of 3] to_double_of_int[of 2] by simp_all
  have d4: "to_double (22517998136852481 / 2251799813685248) = 10"
    by code_simp
  have d5: "to_double (7505999378950827 / 1125899906842624) = 7505999378950827 / 1125899906842624"
    by code_simp
  have r5: "round_half_even (7505999378950827 / 1125899906842624) = 7"
    by code_simp
  show ?thesis
    by (simp add: fit_spec_def d1 d2 d3 d4 d5 r5 Let_def round_half_even_numeral to_double_0)
qed

text \<open>
  C3, as stated: \<^verbatim>\<open>fit_dib\<close> computes the specification's algorithm with rounding to the
  nearest integer. It does not: on the 3 by 2 bitmap and the 10 by 11 sheet the code
  returns \<open>(0, 2, 10, 8)\<close> and the algorithm with rounding to nearest gives \<open>(0, 2, 10, 9)\<close>.
\<close>

theorem fit_dib_nearest_counterexample:
  "fit_dib \<lparr>name = ''P'', paper_width = 10, paper_height = 11, handle = 0\<rparr>
     (Dib \<lparr>img_mode = ''RGB'', img_size = (3, 2), img_turns = 0\<rparr>)
   \<noteq> Inr (fit_spec round_half_even (10, 11) (3, 2))"
  by (simp add: fit_3_2_on_10_11 fit_spec_nearest_3_2_on_10_11)

text \<open>
  C3, amended. For nonzero bitmap sizes \<^verbatim>\<open>fit_dib\<close> computes the specification's
  algorithm with truncation toward zero (\<^verbatim>\<open>int\<close>) in the place of rounding to the nearest
  integer, the quotients and products being those of Python's floats:
  scale = min(W/w, H/h); scaled_w = int(w scale), scaled_h = int(h scale);
  x1 = int((W - scaled_w)/2), y1 = int((H - scaled_h)/2); x2 = x1 + scaled_w,
  y2 = y1 + scaled_h.
\<close>

theorem fit_dib_truncates:
  assumes "fst (dib_size d) \<noteq> 0" "snd (dib_size d) \<noteq> 0"
  shows "fit_dib pr d = Inr (fit_spec py_int (paper_width pr, paper_height pr) (dib_size d))"
  using assms
  by (cases "dib_size d")
     (simp add: fit_dib_def fit_spec_def truediv_def float_mul_def float_of_int_def
        py_min2_def min_def Let_def del: of_int_diff)

theorem fit_dib_truncates_witness:
  "fit_dib \<lparr>name = ''P'', paper_width = 10, paper_height = 11, handle = 0\<rparr>
     (Dib \<lparr>img_mode = ''RGB'', img_size = (3, 2), img_turns = 0\<rparr>)
   = Inr (fit_spec py_int (10, 11) (3, 2))"
  using fit_dib_truncates[of "Dib \<lparr>img_mode = ''RGB'', img_size = (3, 2), img_turns = 0\<rparr>"
      "\<lparr>name = ''P'', paper_width = 10, paper_height = 11, handle = 0\<rparr>"]
  by (simp add: dib_size_def)

text \<open>
  C6. Fitting is not idempotent on the code. A 2036 by 4928 bitmap on a 5100 by 6600
  sheet: the scale is the double nearest to 6600/4928, and 4928 times it is the double
  just below 6600, which \<^verbatim>\<open>int\<close> cuts to 6599. The rectangle is 2726 by 6599; a bitmap of
  that size is then fitted to the full height 6600.
\<close>

theorem fit_dib_twice_differs:
  "fit_dib \<lparr>name = ''P'', paper_width = 5100, paper_height = 6600, handle = 0\<rparr>
     (Dib \<lparr>img_mode = ''RGB'', img_size = (2036, 4928), img_turns = 0\<rparr>)
     = Inr (1187, 0, 3913, 6599) \<and>
   fit_dib \<lparr>name = ''P'', paper_width = 5100, paper_height = 6600, handle = 0\<rparr>
     (Dib \<lparr>img_mode = ''RGB'', img_size = (3913 - 1187, 6599 - 0), img_turns = 0\<rparr>)
     = Inr (1187, 0, 3913, 6600)"
  by code_simp

subsection \<open>Documents and pages\<close>

lemma job_run_append: "job_run s (xs @ ys) = job_run (job_run s xs) ys"
  by (simp add: job_run_def)

lemma job_run_Nil: "job_run s [] = s"
  by (simp add: job_run_def)

lemma job_run_single: "job_run s [ev] = job_step s ev"
  by (simp add: job_run_def)

lemma run_closed_stays: "run_closed (\<lambda>evs. job_run s evs = s)"
  by (simp add: run_closed_def job_run_Nil job_run_append)

lemma stays_ret: "stays s (ret x)"
  unfolding stays_def by (rule yields_ret) (simp_all add: job_run_Nil)

lemma stays_seq: "stays s m \<Longrightarrow> (\<And>x. stays s (f x)) \<Longrightarrow> stays s (seq m f)"
  unfolding stays_def by (rule yields_seq[OF run_closed_stays])

lemma stays_ext_other: "\<not> job_call c \<Longrightarrow> stays s (ext en c v)"
  unfolding stays_def by (rule yields_ext) (simp_all add: job_run_single job_step_def)

lemma stays_get_dib: "stays s (get_dib en p)"
  unfolding get_dib_def
  by (intro stays_seq stays_ext_other) (simp_all add: stays_ret stays_ext_other)

lemma stays_make_dibs: "stays s (make_dibs en pages)"
  by (induction pages) (auto intro!: stays_seq stays_ext_other stays_ret)

lemma stays_page:
  "stays DocumentStarted (with_stmt (Page_enter en) (Page_exit en) (\<lambda>u. Page_send en pr d))"
  unfolding stays_def
proof (rule yieldsI)
  fix tr
  let ?c = "with_stmt (Page_enter en) (Page_exit en) (\<lambda>u. Page_send en pr d)"
  have "\<exists>evs. snd (?c tr) = tr @ evs \<and> job_run DocumentStarted evs = DocumentStarted"
  proof (cases "raises en tr StartPage")
    case True
    then have "snd (?c tr) = tr @ [(StartPage, False)]"
      by (simp add: with_stmt_def Page_enter_def ext_def)
    moreover have "job_run DocumentStarted [(StartPage, False)] = DocumentStarted"
      by (simp add: job_run_single job_step_def)
    ultimately show ?thesis by blast
  next
    case False
    let ?tr1 = "tr @ [(StartPage, True)]"
    obtain body where body: "snd (Page_send en pr d ?tr1) = ?tr1 @ body"
      "job_run PageStarted body = PageStarted"
    proof (cases "fit_dib pr d")
      case (Inl e)
      then have "snd (Page_send en pr d ?tr1) = ?tr1 @ []"
        by (simp add: Page_send_def throw_def)
      then show ?thesis using that[of "[]"] by (simp add: job_run_Nil)
    next
      case (Inr r)
      let ?dr = "Draw d (handle pr) r"
      have "snd (Page_send en pr d ?tr1) = ?tr1 @ [(?dr, \<not> raises en ?tr1 ?dr)]"
        using Inr by (simp add: Page_send_def ext_def)
      moreover have "job_run PageStarted [(?dr, \<not> raises en ?tr1 ?dr)] = PageStarted"
        by (simp add: job_run_single job_step_def)
      ultimately show ?thesis using that by blast
    qed
    let ?tr2 = "?tr1 @ body"
    have "snd (?c tr) = tr @ ((StartPage, True) # body @ [(EndPage, \<not> raises en ?tr2 EndPage)])"
      using False body(1)
      by (cases "Page_send en pr d ?tr1")
         (simp add: with_stmt_def Page_enter_def Page_exit_def ext_def)
    moreover have "job_run DocumentStarted ((StartPage, True) # body @ [(EndPage, \<not> raises en ?tr2 EndPage)])
        = DocumentStarted"
      using body(2) by (simp add: job_run_def job_step_def)
    ultimately show ?thesis by blast
  qed
  then show "\<exists>evs. snd (?c tr) = tr @ evs \<and> job_run DocumentStarted evs = DocumentStarted \<and>
       (\<forall>x. fst (?c tr) = Inr x \<longrightarrow> True)"
    by simp
qed

lemma stays_Document_send: "stays DocumentStarted (Document_send en pr items)"
proof (induction items)
  case Nil
  show ?case by (simp add: stays_ret)
next
  case (Cons it items)
  show ?case
    unfolding Document_send.simps
    by (intro stays_seq stays_page Cons.IH) (simp add: stays_get_dib stays_ret split: item.split)
qed

lemma stays_document_body:
  "stays DocumentStarted
     (if path_suffix p = ''.pdf''
      then seq (ext en (ConvertFromPath p) (pdf_pages en p)) (\<lambda>pages.
           seq (make_dibs en pages) (\<lambda>dibs. Document_send en pr (map ItemDib dibs)))
      else Document_send en pr [ItemPath p])"
  by (simp add: stays_seq stays_ext_other stays_make_dibs stays_Document_send
        del: Document_send.simps)

text \<open>
  C1. Whatever the device, the decoders and the drawing do, the calls one
  \<^verbatim>\<open>device_print\<close> adds to the run follow the job protocol: one \<^verbatim>\<open>StartDoc\<close>; if it raised,
  nothing more; otherwise, for every \<^verbatim>\<open>StartPage\<close> that returned, the drawing and then
  \<^verbatim>\<open>EndPage\<close>, also when the drawing raises; and at the end one \<^verbatim>\<open>EndDoc\<close>, also when a page
  raised. No page and no document is left open.
\<close>

theorem device_print_nested:
  "\<exists>r evs. device_print en pr p tr = (r, tr @ evs) \<and>
     job_run Idle evs =
       (if raises en tr (StartDoc (path_name p)) then NotStarted else DocumentEnded)"
proof (cases "raises en tr (StartDoc (path_name p))")
  case True
  then have "device_print en pr p tr
      = (Inl (ExternalError (StartDoc (path_name p))), tr @ [(StartDoc (path_name p), False)])"
    by (simp add: device_print_def with_stmt_def Document_enter_def ext_def)
  moreover have "job_run Idle [(StartDoc (path_name p), False)] = NotStarted"
    by (simp add: job_run_single job_step_def)
  ultimately show ?thesis using True by simp
next
  case False
  let ?body = "if path_suffix p = ''.pdf''
      then seq (ext en (ConvertFromPath p) (pdf_pages en p)) (\<lambda>pages.
           seq (make_dibs en pages) (\<lambda>dibs. Document_send en pr (map ItemDib dibs)))
      else Document_send en pr [ItemPath p]"
  let ?tr1 = "tr @ [(StartDoc (path_name p), True)]"
  obtain evs where evs: "snd (?body ?tr1) = ?tr1 @ evs"
    "job_run DocumentStarted evs = DocumentStarted"
    using yieldsD[OF stays_document_body[of p en pr, unfolded stays_def], of ?tr1] by blast
  let ?tr2 = "?tr1 @ evs"
  let ?all = "(StartDoc (path_name p), True) # evs @ [(EndDoc, \<not> raises en ?tr2 EndDoc)]"
  have "snd (device_print en pr p tr) = tr @ ?all"
    using False evs(1)
    by (cases "?body ?tr1")
       (simp add: device_print_def with_stmt_def Document_enter_def Document_exit_def ext_def)
  moreover have "job_run Idle ?all = DocumentEnded"
    using evs(2) by (simp add: job_run_def job_step_def)
  ultimately show ?thesis using False by (cases "device_print en pr p tr") auto
qed

text \<open>
  The sample run: a three-page PDF on a device whose second drawing raises. Both started
  pages are ended, the third page is never started, and the document is ended.
\<close>

lemma device_print_sample:
  "device_print sample_env sample_printer [''report.pdf''] [] =
     (Inl (ExternalError (Draw (Dib (sample_page (20, 10))) 7 (0, 7, 10, 12))),
      [(StartDoc ''report.pdf'', True),
       (ConvertFromPath [''report.pdf''], True),
       (MakeDib (sample_page (10, 20)), True),
       (MakeDib (sample_page (20, 10)), True),
       (MakeDib (sample_page (10, 20)), True),
       (StartPage, True),
       (Draw (Dib (sample_page (10, 20))) 7 (0, 0, 10, 20), True),
       (EndPage, True),
       (StartPage, True),
       (Draw (Dib (sample_page (20, 10))) 7 (0, 7, 10, 12), False),
       (EndPage, True),
       (EndDoc, True)])"
  by code_simp

theorem device_print_nested_witness:
  "\<exists>r evs. device_print sample_env sample_printer [''report.pdf''] [] = (r, [] @ evs) \<and>
     job_run Idle evs = DocumentEnded"
  using device_print_nested[of sample_env sample_printer "[''report.pdf'']" "[]"]
  by (simp add: sample_env_def)

subsection \<open>Bitmaps handed to the drawing primitive\<close>

lemma drawn_append: "drawn (a @ b) = drawn a @ drawn b"
  by (simp add: drawn_def)

lemma drawn_Nil: "drawn [] = []"
  by (simp add: drawn_def)

lemma drawn_other: "\<not> is_Draw c \<Longrightarrow> drawn [(c, ok)] = []"
  by (cases c) (simp_all add: drawn_def)

lemma drawn_Draw: "drawn [(Draw d ho r, ok)] = [d]"
  by (simp add: drawn_def)

lemma run_closed_drawn: "run_closed (\<lambda>evs. set (drawn evs) \<subseteq> D)"
  by (simp add: run_closed_def drawn_append drawn_Nil)

lemma run_closed_no_draw: "run_closed (\<lambda>evs. drawn evs = [])"
  by (simp add: run_closed_def drawn_append drawn_Nil)

lemma get_dib_result:
  "yields (get_dib en p) (\<lambda>evs. drawn evs = []) (\<lambda>d. d = Dib (post_process (image_file en p)))"
  unfolding get_dib_def
  apply (rule yields_seq[OF run_closed_no_draw, where Q = "\<lambda>im. im = image_file en p"])
   apply (rule yields_ext; simp add: drawn_other)
  apply (rule yields_seq[OF run_closed_no_draw, where Q = "\<lambda>bmp. bmp = convert_RGB (image_file en p)"])
   apply (rule yields_ext; simp add: drawn_other)
  apply (rule yields_seq[OF run_closed_no_draw, where Q = "\<lambda>bmp. bmp = post_process (image_file en p)"])
   apply (auto intro!: yields_ext yields_ret simp: drawn_other drawn_Nil post_process_def Let_def)
  done

lemma make_dibs_result:
  "yields (make_dibs en pages) (\<lambda>evs. drawn evs = []) (\<lambda>ds. ds = map Dib pages)"
proof (induction pages)
  case Nil
  show ?case by (simp add: yields_ret drawn_Nil)
next
  case (Cons page pages)
  show ?case
    unfolding make_dibs.simps
    apply (rule yields_seq[OF run_closed_no_draw, where Q = "\<lambda>d. d = Dib page"])
     apply (rule yields_ext; simp add: drawn_other)
    apply (rule yields_seq[OF run_closed_no_draw Cons.IH])
    apply (simp add: yields_ret drawn_Nil)
    done
qed

lemma no_draw_subset: "yields c (\<lambda>evs. drawn evs = []) Q \<Longrightarrow> yields c (\<lambda>evs. set (drawn evs) \<subseteq> D) Q"
  by (erule yields_weaken) simp_all

lemma page_draws:
  assumes "d \<in> D"
  shows "yields (with_stmt (Page_enter en) (Page_exit en) (\<lambda>u. Page_send en pr d))
           (\<lambda>evs. set (drawn evs) \<subseteq> D) (\<lambda>u. True)"
proof (rule yields_with[OF run_closed_drawn, where Q = "\<lambda>u. True"])
  show "yields (Page_enter en) (\<lambda>evs. set (drawn evs) \<subseteq> D) (\<lambda>u. True)"
    unfolding Page_enter_def by (rule yields_ext) (simp_all add: drawn_other)
  show "yields (Page_exit en) (\<lambda>evs. set (drawn evs) \<subseteq> D) (\<lambda>u. True)"
    unfolding Page_exit_def by (rule yields_ext) (simp_all add: drawn_other)
  show "yields (Page_send en pr d) (\<lambda>evs. set (drawn evs) \<subseteq> D) (\<lambda>u. True)"
    unfolding Page_send_def using assms
    by (cases "fit_dib pr d") (simp_all add: yields_throw yields_ext drawn_Nil drawn_Draw)
qed

lemma Document_send_draws:
  assumes "\<forall>it\<in>set items. item_from en D it"
  shows "yields (Document_send en pr items) (\<lambda>evs. set (drawn evs) \<subseteq> D) (\<lambda>u. True)"
  using assms
proof (induction items)
  case Nil
  show ?case by (simp add: yields_ret drawn_Nil)
next
  case (Cons it items)
  have item: "yields (case it of ItemPath p \<Rightarrow> get_dib en p | ItemDib d \<Rightarrow> ret d)
                (\<lambda>evs. set (drawn evs) \<subseteq> D) (\<lambda>d. d \<in> D)"
  proof (cases it)
    case (ItemPath p)
    with Cons.prems have "Dib (post_process (image_file en p)) \<in> D" by simp
    then show ?thesis
      unfolding ItemPath item.case
      by (intro yields_weaken[OF get_dib_result]) simp_all
  next
    case (ItemDib d)
    with Cons.prems show ?thesis by (simp add: yields_ret drawn_Nil)
  qed
  have rest: "yields (Document_send en pr items) (\<lambda>evs. set (drawn evs) \<subseteq> D) (\<lambda>u. True)"
    using Cons by simp
  show ?case
    unfolding Document_send.simps
    by (intro yields_seq[OF run_closed_drawn item] yields_seq[OF run_closed_drawn page_draws] rest)
qed

text \<open>
  Whatever \<^verbatim>\<open>device_print\<close> draws for an image file is the post-processed bitmap of that
  file; whatever it draws for a PDF is a page as \<^verbatim>\<open>convert_from_path\<close> returned it, since
  \<^verbatim>\<open>device_print\<close> wraps each page in a \<^verbatim>\<open>Dib\<close> and \<^verbatim>\<open>Document.send\<close> passes a \<^verbatim>\<open>Dib\<close> on
  unchanged.
\<close>

lemma device_print_draws:
  "\<exists>r evs. device_print en pr p tr = (r, tr @ evs) \<and>
     set (drawn evs) \<subseteq>
       (if path_suffix p = ''.pdf'' then Dib ` set (pdf_pages en p)
        else {Dib (post_process (image_file en p))})"
proof -
  define D where "D = (if path_suffix p = ''.pdf'' then Dib ` set (pdf_pages en p)
        else {Dib (post_process (image_file en p))})"
  let ?P = "\<lambda>evs. set (drawn evs) \<subseteq> D"
  have body: "yields
     (if path_suffix p = ''.pdf''
      then seq (ext en (ConvertFromPath p) (pdf_pages en p)) (\<lambda>pages.
           seq (make_dibs en pages) (\<lambda>dibs. Document_send en pr (map ItemDib dibs)))
      else Document_send en pr [ItemPath p]) ?P (\<lambda>u. True)"
  proof (cases "path_suffix p = ''.pdf''")
    case True
    have conv: "yields (ext en (ConvertFromPath p) (pdf_pages en p)) ?P (\<lambda>pages. pages = pdf_pages en p)"
      by (rule yields_ext) (simp_all add: drawn_other)
    have mk: "yields (make_dibs en (pdf_pages en p)) ?P (\<lambda>ds. ds = map Dib (pdf_pages en p))"
      by (rule no_draw_subset[OF make_dibs_result])
    have snd: "yields (Document_send en pr (map ItemDib (map Dib (pdf_pages en p)))) ?P (\<lambda>u. True)"
      by (rule Document_send_draws) (simp add: D_def True)
    have "yields (seq (ext en (ConvertFromPath p) (pdf_pages en p)) (\<lambda>pages.
           seq (make_dibs en pages) (\<lambda>dibs. Document_send en pr (map ItemDib dibs)))) ?P (\<lambda>u. True)"
      apply (rule yields_seq[OF run_closed_drawn conv])
      apply simp
      apply (rule yields_seq[OF run_closed_drawn mk])
      apply (simp only: snd)
      done
    then show ?thesis unfolding if_P[OF True] .
  next
    case False
    have "yields (Document_send en pr [ItemPath p]) ?P (\<lambda>u. True)"
      by (rule Document_send_draws) (simp add: D_def False)
    then show ?thesis unfolding if_not_P[OF False] .
  qed
  have "yields (device_print en pr p) ?P (\<lambda>u. True)"
    unfolding device_print_def
    apply (rule yields_with[OF run_closed_drawn, where Q = "\<lambda>u. True"])
      apply (simp add: Document_enter_def yields_ext drawn_other)
     apply (rule body)
    apply (simp add: Document_exit_def yields_ext drawn_other)
    done
  from yieldsD[OF this, of tr] show ?thesis
    unfolding D_def by (cases "device_print en pr p tr") auto
qed

text \<open>
  C5. \<^verbatim>\<open>get_dib\<close> calls \<^verbatim>\<open>rotate\<close> at most once, and not at all on an image that is not
  wider than tall. A bitmap that it returns is the post-processed image of the file: an
  image wider than tall rotated exactly once (one call, one quarter turn), any other
  image not rotated. When no call raises it does return that bitmap.
\<close>

theorem get_dib_rotates_once:
  "\<exists>r evs. get_dib en p tr = (r, tr @ evs) \<and>
     rotations evs \<le> (if wider_than_tall (image_file en p) then 1 else 0) \<and>
     (\<forall>d. r = Inr d \<longrightarrow>
        d = Dib (post_process (image_file en p)) \<and>
        rotations evs = (if wider_than_tall (image_file en p) then 1 else 0) \<and>
        img_turns (dib_image d) =
          img_turns (image_file en p) + (if wider_than_tall (image_file en p) then 1 else 0)) \<and>
     ((\<forall>t c. \<not> raises en t c) \<longrightarrow>
        r = Inr (Dib (post_process (image_file en p))) \<and>
        rotations evs = (if wider_than_tall (image_file en p) then 1 else 0))"
  by (auto simp add: get_dib_def seq_def ext_def ret_def rotations_def wider_than_tall_def
      post_process_def convert_RGB_def rotate_90_def Let_def)

lemma suffix_samples:
  "path_suffix [''report.pdf''] = ''.pdf''" "path_suffix [''photo.png''] = ''.png''"
  by code_simp+

lemma device_print_calm_pdf:
  "device_print calm_env sample_printer [''report.pdf''] [] =
     (Inr (),
      [(StartDoc ''report.pdf'', True),
       (ConvertFromPath [''report.pdf''], True),
       (MakeDib (sample_page (10, 20)), True),
       (MakeDib (sample_page (20, 10)), True),
       (MakeDib (sample_page (10, 20)), True),
       (StartPage, True),
       (Draw (Dib (sample_page (10, 20))) 7 (0, 0, 10, 20), True),
       (EndPage, True),
       (StartPage, True),
       (Draw (Dib (sample_page (20, 10))) 7 (0, 7, 10, 12), True),
       (EndPage, True),
       (StartPage, True),
       (Draw (Dib (sample_page (10, 20))) 7 (0, 0, 10, 20), True),
       (EndPage, True),
       (EndDoc, True)])"
  by code_simp

lemma get_dib_calm_image:
  "get_dib calm_env [''photo.png''] [] =
     (Inr (Dib \<lparr>img_mode = ''RGB'', img_size = (20, 10), img_turns = 1\<rparr>),
      [(ImageOpen [''photo.png''], True),
       (ConvertRGB \<lparr>img_mode = ''L'', img_size = (20, 10), img_turns = 0\<rparr>, True),
       (Rotate \<lparr>img_mode = ''RGB'', img_size = (20, 10), img_turns = 0\<rparr>, True),
       (MakeDib \<lparr>img_mode = ''RGB'', img_size = (20, 10), img_turns = 1\<rparr>, True)])"
  by code_simp

text \<open>The image branch on the sample picture: converted, rotated, then drawn.\<close>

lemma device_print_calm_image:
  "device_print calm_env sample_printer [''photo.png''] [] =
     (Inr (),
      [(StartDoc ''photo.png'', True),
       (ImageOpen [''photo.png''], True),
       (ConvertRGB \<lparr>img_mode = ''L'', img_size = (20, 10), img_turns = 0\<rparr>, True),
       (Rotate \<lparr>img_mode = ''RGB'', img_size = (20, 10), img_turns = 0\<rparr>, True),
       (MakeDib \<lparr>img_mode = ''RGB'', img_size = (20, 10), img_turns = 1\<rparr>, True),
       (StartPage, True),
       (Draw (Dib \<lparr>img_mode = ''RGB'', img_size = (20, 10), img_turns = 1\<rparr>) 7 (0, 7, 10, 12), True),
       (EndPage, True),
       (EndDoc, True)])"
  by code_simp

text \<open>
  C4. The sample PDF in a world where no call raises. Its second page is wider than
  tall; the post-processing rule would rotate it. \<^verbatim>\<open>device_print\<close> hands the three pages to
  \<^verbatim>\<open>dib.draw\<close> as \<^verbatim>\<open>convert_from_path\<close> returned them, the second one not rotated: what is
  drawn is not the post-processed form of what the decoder delivered.
\<close>

theorem pdf_page_not_post_processed:
  "pdf_pages calm_env [''report.pdf'']
     = [sample_page (10, 20), sample_page (20, 10), sample_page (10, 20)] \<and>
   drawn (snd (device_print calm_env sample_printer [''report.pdf''] []))
     = [Dib (sample_page (10, 20)), Dib (sample_page (20, 10)), Dib (sample_page (10, 20))] \<and>
   wider_than_tall (sample_page (20, 10)) \<and>
   post_process (sample_page (20, 10)) = (sample_page (20, 10))\<lparr>img_turns := 1\<rparr> \<and>
   \<not> set (drawn (snd (device_print calm_env sample_printer [''report.pdf''] [])))
       \<subseteq> Dib ` post_process ` sources calm_env [''report.pdf'']"
proof -
  have d: "drawn (snd (device_print calm_env sample_printer [''report.pdf''] []))
      = [Dib (sample_page (10, 20)), Dib (sample_page (20, 10)), Dib (sample_page (10, 20))]"
    by (simp add: device_print_calm_pdf drawn_def)
  have pg: "pdf_pages calm_env [''report.pdf'']
     = [sample_page (10, 20), sample_page (20, 10), sample_page (10, 20)]"
    by (simp add: calm_env_def sample_env_def)
  have s: "sources calm_env [''report.pdf''] = {sample_page (10, 20), sample_page (20, 10)}"
    by (auto simp add: sources_def suffix_samples pg)
  have w: "wider_than_tall (sample_page (20, 10))"
    by (simp add: wider_than_tall_def sample_page_def)
  have pp: "post_process (sample_page (20, 10)) = (sample_page (20, 10))\<lparr>img_turns := 1\<rparr>"
    by (simp add: sample_page_def post_process_def convert_RGB_def rotate_90_def)
  have "Dib (sample_page (20, 10)) \<notin> Dib ` post_process ` {sample_page (10, 20), sample_page (20, 10)}"
    by (simp add: sample_page_def post_process_def convert_RGB_def rotate_90_def)
  then have "\<not> set (drawn (snd (device_print calm_env sample_printer [''report.pdf''] [])))
       \<subseteq> Dib ` post_process ` sources calm_env [''report.pdf'']"
    unfolding d s by simp
  with d pg w pp show ?thesis by blast
qed


lemma device_print_draws_image:
  "\<exists>r evs. device_print calm_env sample_printer [''photo.png''] [] = (r, [] @ evs) \<and>
     set (drawn evs) \<subseteq> {Dib \<lparr>img_mode = ''RGB'', img_size = (20, 10), img_turns = 1\<rparr>}"
  using device_print_draws[of calm_env sample_printer "[''photo.png'']" "[]"]
  by (simp add: suffix_samples calm_env_def sample_env_def post_process_def convert_RGB_def
      rotate_90_def)

theorem get_dib_rotates_once_witness:
  "(\<forall>t c. \<not> raises calm_env t c) \<and>
   (\<exists>r evs. get_dib calm_env [''photo.png''] [] = (r, [] @ evs) \<and>
      r = Inr (Dib \<lparr>img_mode = ''RGB'', img_size = (20, 10), img_turns = 1\<rparr>) \<and>
      rotations evs = 1)"
  using get_dib_rotates_once[of calm_env "[''photo.png'']" "[]"]
  by (auto simp add: calm_env_def sample_env_def wider_than_tall_def post_process_def
      convert_RGB_def rotate_90_def)

subsection \<open>Shell mode\<close>

lemma Printer_init_events:
  "\<exists>r opened. Printer_init en nm tr = (r, tr @ opened) \<and>
     \<not> handed_to_shell opened \<and> closes opened = 0 \<and>
     (\<forall>pr. r = Inr pr \<longrightarrow>
        name pr = resolved_name en nm \<and> (CreatePrinterDC (name pr), True) \<in> set opened)"
  by (simp add: Printer_init_def seq_def ext_def ret_def handed_to_shell_def closes_def
      resolved_name_def PAPER_WIDTH_IDX_def PAPER_HEIGHT_IDX_def)

lemma closes_append: "closes (a @ b) = closes a + closes b"
  by (simp add: closes_def)

lemma run_closed_no_close: "run_closed (\<lambda>evs. closes evs = 0)"
  by (simp add: run_closed_def closes_append) (simp add: closes_def)

lemma Printer_send_shell_no_close:
  "yields (Printer_send en pr paths msg True) (\<lambda>evs. closes evs = 0) (\<lambda>u. True)"
proof (induction paths)
  case Nil
  show ?case by (simp add: yields_ret closes_def)
next
  case (Cons p paths)
  have sh: "yields (shell_print en p) (\<lambda>evs. closes evs = 0) (\<lambda>u. True)"
    unfolding shell_print_def by (rule yields_ext) (simp_all add: closes_def)
  have pm: "yields (if msg \<noteq> [] then print_template msg (name pr) p else ret ())
              (\<lambda>evs. closes evs = 0) (\<lambda>u. True)"
    by (cases "msg = []") (simp_all add: yields_ret yields_print_template closes_def)
  show ?case
    unfolding Printer_send.simps if_True
    by (intro yields_seq[OF run_closed_no_close sh] yields_seq[OF run_closed_no_close pm] Cons.IH)
qed

text \<open>
  C10. The module-level \<^verbatim>\<open>send\<close> with \<^verbatim>\<open>shell=True\<close> builds the \<^verbatim>\<open>Printer\<close> first. When that
  fails, as it does when \<^verbatim>\<open>CreatePrinterDC\<close> raises, \<^verbatim>\<open>send\<close> fails with the same exception and
  no file has been handed to the shell. When it succeeds, the device context of the
  named (or default) printer was created before any file is handed to the shell, and
  \<^verbatim>\<open>DeleteDC\<close> is called exactly once, as the last call, however the printing ended.
\<close>

theorem send_shell_device_context:
  "\<exists>r evs. send en paths nm msg True tr = (r, tr @ evs) \<and>
     (case Printer_init en nm tr of
        (Inl e, tr1) \<Rightarrow> r = Inl e \<and> tr @ evs = tr1 \<and> \<not> handed_to_shell evs \<and> closes evs = 0
      | (Inr pr, tr1) \<Rightarrow>
          name pr = resolved_name en nm \<and>
          (\<exists>opened body ok. tr1 = tr @ opened \<and> evs = opened @ body @ [(DeleteDC, ok)] \<and>
             (CreatePrinterDC (name pr), True) \<in> set opened \<and>
             \<not> handed_to_shell opened \<and> closes evs = 1))"
proof -
  obtain r0 opened where init: "Printer_init en nm tr = (r0, tr @ opened)"
    and op: "\<not> handed_to_shell opened" "closes opened = 0"
    and ok: "\<And>pr. r0 = Inr pr \<Longrightarrow>
        name pr = resolved_name en nm \<and> (CreatePrinterDC (name pr), True) \<in> set opened"
    using Printer_init_events[of en nm tr] by blast
  show ?thesis
  proof (cases r0)
    case (Inl e)
    then have "send en paths nm msg True tr = (Inl e, tr @ opened)"
      using init by (simp add: send_def seq_def)
    then show ?thesis using init Inl op by simp
  next
    case (Inr pr)
    let ?tr1 = "tr @ opened"
    obtain body where body: "snd (Printer_send en pr paths msg True ?tr1) = ?tr1 @ body"
      "closes body = 0"
      using yieldsD[OF Printer_send_shell_no_close[of en pr paths msg], of ?tr1] by blast
    let ?tr2 = "?tr1 @ body"
    let ?ok = "\<not> raises en ?tr2 DeleteDC"
    have "snd (send en paths nm msg True tr) = tr @ (opened @ body @ [(DeleteDC, ?ok)])"
      using init Inr body(1)
      by (cases "Printer_send en pr paths msg True ?tr1")
         (simp add: send_def seq_def with_stmt_def Printer_enter_def Printer_exit_def ret_def ext_def)
    moreover have "closes (opened @ body @ [(DeleteDC, ?ok)]) = 1"
      using op(2) body(2) by (simp add: closes_append) (simp add: closes_def)
    ultimately show ?thesis
      using init Inr op ok[OF Inr]
      by (cases "send en paths nm msg True tr") auto
  qed
qed

lemma Printer_init_offline:
  "Printer_init offline_env ''Nowhere'' [] =
     (Inl (ExternalError (CreatePrinterDC ''Nowhere'')),
      [(CreateDC, True), (CreatePrinterDC ''Nowhere'', False)])"
  by code_simp

lemma send_shell_calm:
  "send calm_env [[''a.pdf''], [''b.png'']] [] ''sent $path'' True [] =
     (Inr (),
      [(GetDefaultPrinter, True), (CreateDC, True), (CreatePrinterDC ''Office'', True),
       (GetDeviceCaps 110, True), (GetDeviceCaps 111, True), (GetHandleOutput, True),
       (Startfile [''a.pdf''], True), (PrintTemplate ''sent $path'' ''Office'' [''a.pdf''], True),
       (Startfile [''b.png''], True), (PrintTemplate ''sent $path'' ''Office'' [''b.png''], True),
       (DeleteDC, True)])"
  by code_simp

theorem send_shell_device_context_witness:
  "\<exists>r evs. send offline_env [[''a.pdf'']] ''Nowhere'' [] True [] = (r, [] @ evs) \<and>
     r = Inl (ExternalError (CreatePrinterDC ''Nowhere'')) \<and>
     [] @ evs = [(CreateDC, True), (CreatePrinterDC ''Nowhere'', False)] \<and>
     \<not> handed_to_shell evs \<and> closes evs = 0"
  using send_shell_device_context[of offline_env "[[''a.pdf'']]" "''Nowhere''" "[]" "[]"]
  by (simp add: Printer_init_offline)

subsection \<open>The printer prompt\<close>

lemma print_menu_eq: "print_menu no choices tr = (Inr (), tr @ menu_events no choices)"
  by (induction choices arbitrary: no tr) (simp_all add: ret_def seq_def py_print_def)

lemma menu_events_no_input: "filter is_input (menu_events no choices) = []"
  by (induction choices arbitrary: no) simp_all

lemma prompt_events_no_input: "filter is_input (prompt_events cfg) = []"
  by (simp add: prompt_events_def menu_events_no_input)

lemma answer_after_prompt: "answer en (tr @ prompt_events cfg) = answer en tr"
  by (simp add: answer_def prompt_events_no_input)

lemma int_of_str_error: "int_of_str s = Inl e \<Longrightarrow> e = ValueError"
  by (auto simp: int_of_str_def Let_def split: option.splits if_splits)

lemma py_index_error: "py_index xs i = Inl e \<Longrightarrow> e = IndexError"
  by (auto simp: py_index_def split: if_splits)

lemma get_printer_name_prompted:
  assumes "prompted cfg"
  shows "get_printer_name cfg en tr =
     (Inr (selection cfg (answer en tr)),
      tr @ prompt_events cfg @ [(Input [], answer en tr \<noteq> None)])"
proof -
  let ?tr1 = "tr @ prompt_events cfg"
  have "get_printer_name cfg en tr
      = try_except (prompt_choice cfg en) caught_by_prompt (ret None) ?tr1"
    using assms
    by (simp add: get_printer_name_def prompted_def seq_def ret_def py_print_def print_menu_eq
        prompt_events_def)
  also have "\<dots> = (Inr (selection cfg (answer en tr)), ?tr1 @ [(Input [], answer en tr \<noteq> None)])"
    by (auto simp add: try_except_def prompt_choice_def seq_def py_input_def answer_after_prompt
        selection_def throw_def ret_def caught_by_prompt_def
        dest: int_of_str_error py_index_error split: option.split sum.split)
  finally show ?thesis by simp
qed

lemma get_printer_name_configured:
  assumes "\<not> prompted cfg"
  shows "get_printer_name cfg en tr = (Inr (EXPECTED_PRINTER cfg), tr)"
  using assms by (simp add: get_printer_name_def prompted_def ret_def)

lemma digits_value_digits:
  "\<forall>c\<in>set ds. is_digit c \<Longrightarrow>
     digits_value acc ds = Some (foldl (\<lambda>a c. 10 * a + (of_char c - 48)) acc ds)"
  by (induction ds arbitrary: acc) simp_all

lemma parse_nat_digits:
  "ds \<noteq> [] \<Longrightarrow> \<forall>c\<in>set ds. is_digit c \<Longrightarrow> parse_nat ds = Some (decimal_value ds)"
  by (cases ds) (simp_all add: parse_nat_def decimal_value_def digits_value_digits)

lemma digit_not_space: "is_digit c \<Longrightarrow> \<not> is_space c"
  by (auto simp: is_digit_def is_space_def)

lemma minus_sign: "\<not> is_space CHR ''-''" "\<not> is_digit CHR ''-''"
  by (simp_all add: is_space_def is_digit_def)

lemma strip_padded:
  assumes pre: "\<forall>c\<in>set pre. is_space c" and post: "\<forall>c\<in>set post. is_space c"
      and ds: "ds \<noteq> []" "\<forall>c\<in>set ds. is_digit c"
  shows "strip (pre @ CHR ''-'' # ds @ post) = CHR ''-'' # ds"
proof -
  have "dropWhile is_space (pre @ CHR ''-'' # ds @ post) = dropWhile is_space (CHR ''-'' # ds @ post)"
    by (rule dropWhile_append2) (use pre in auto)
  then have front: "dropWhile is_space (pre @ CHR ''-'' # ds @ post) = CHR ''-'' # ds @ post"
    by (simp add: minus_sign)
  have "dropWhile is_space (rev post @ rev ds @ [CHR ''-''])
      = dropWhile is_space (rev ds @ [CHR ''-''])"
    by (rule dropWhile_append2) (use post in auto)
  also have "\<dots> = rev ds @ [CHR ''-'']"
  proof (cases "rev ds")
    case Nil
    with ds(1) show ?thesis by simp
  next
    case (Cons c cs)
    then have "c \<in> set ds" by (metis list.set_intros(1) set_rev)
    with ds(2) have "\<not> is_space c" by (simp add: digit_not_space)
    with Cons show ?thesis by simp
  qed
  finally have rear: "dropWhile is_space (rev (CHR ''-'' # ds @ post)) = rev (CHR ''-'' # ds)"
    by simp
  show ?thesis
    unfolding strip_def front rear by simp
qed

lemma int_of_str_padded:
  assumes pre: "\<forall>c\<in>set pre. is_space c" and post: "\<forall>c\<in>set post. is_space c"
      and ds: "ds \<noteq> []" "\<forall>c\<in>set ds. is_digit c" and len: "length ds \<le> 4300"
  shows "int_of_str (pre @ CHR ''-'' # ds @ post) = Inr (- int (decimal_value ds))"
proof -
  have f: "filter is_digit (CHR ''-'' # ds) = ds"
    using ds(2) by (simp add: minus_sign)
  show ?thesis
    unfolding int_of_str_def strip_padded[OF pre post ds] Let_def f
    using len ds by (simp add: parse_nat_digits int_max_str_digits_def)
qed

lemma selection_negative:
  assumes "int_of_str line = Inr i" and "- int (length (PRINTERS cfg)) \<le> i" and "i \<le> - 1"
  shows "selection cfg (Some line) = Some (PRINTERS cfg ! nat (int (length (PRINTERS cfg)) + i))"
  using assms by (simp add: selection_def py_index_def)

text \<open>
  C9. The prompt is reached and the answer is a minus sign and decimal digits (at most
  4300 of them), with or without whitespace around; the digits write a number \<open>k\<close> with
  \<open>1 \<le> k \<le> len(PRINTERS)\<close>. Then \<^verbatim>\<open>int\<close> reads the answer as \<open>-k\<close> and \<^verbatim>\<open>get_printer_name\<close>
  returns the printer at position \<open>len(PRINTERS) - k\<close>, with no \<^verbatim>\<open>IndexError\<close>; for \<open>k = 1\<close>, as
  in the answer \<^verbatim>\<open>-1\<close>, that is the last printer of the catalog.
\<close>

theorem negative_answer_counts_from_end:
  assumes "prompted cfg"
      and "answer en tr = Some (pre @ ''-'' @ ds @ post)"
      and "\<forall>c\<in>set pre. is_space c" and "\<forall>c\<in>set post. is_space c"
      and "ds \<noteq> []" and "\<forall>c\<in>set ds. is_digit c" and "length ds \<le> 4300"
      and "1 \<le> decimal_value ds" and "decimal_value ds \<le> length (PRINTERS cfg)"
  shows "int_of_str (pre @ ''-'' @ ds @ post) = Inr (- int (decimal_value ds)) \<and>
         fst (get_printer_name cfg en tr)
           = Inr (Some (PRINTERS cfg ! (length (PRINTERS cfg) - decimal_value ds))) \<and>
         (decimal_value ds = 1 \<longrightarrow>
            fst (get_printer_name cfg en tr) = Inr (Some (last (PRINTERS cfg))))"
proof -
  let ?k = "decimal_value ds"
  have p: "int_of_str (pre @ ''-'' @ ds @ post) = Inr (- int ?k)"
    using int_of_str_padded[OF assms(3-7)] by simp
  have "selection cfg (Some (pre @ ''-'' @ ds @ post))
      = Some (PRINTERS cfg ! nat (int (length (PRINTERS cfg)) + - int ?k))"
    using assms(8,9) by (intro selection_negative[OF p]) simp_all
  also have "nat (int (length (PRINTERS cfg)) + - int ?k) = length (PRINTERS cfg) - ?k"
    using assms(9) by simp
  finally have sel: "selection cfg (Some (pre @ ''-'' @ ds @ post))
      = Some (PRINTERS cfg ! (length (PRINTERS cfg) - ?k))" .
  have ne: "PRINTERS cfg \<noteq> []" using assms(8,9) by auto
  have "?k = 1 \<Longrightarrow> PRINTERS cfg ! (length (PRINTERS cfg) - ?k) = last (PRINTERS cfg)"
    using ne by (simp add: last_conv_nth)
  then show ?thesis
    using p sel assms(2) by (simp add: get_printer_name_prompted[OF assms(1)])
qed

theorem negative_answer_counts_from_end_witness:
  "prompted (source_config [''A'', ''B'']) \<and>
   answer (console [Some ''-1'']) [] = Some ([] @ ''-'' @ ''1'' @ []) \<and>
   is_digit CHR ''1'' \<and> decimal_value ''1'' = 1 \<and>
   int_of_str ''-1'' = Inr (- 1) \<and>
   fst (get_printer_name (source_config [''A'', ''B'']) (console [Some ''-1'']) []) = Inr (Some ''B'')"
  using negative_answer_counts_from_end[of "source_config [''A'', ''B'']" "console [Some ''-1'']"
      "[]" "[]" "''1''" "[]"]
  by (simp add: prompted_def source_config_def truthy_def answer_def
      console_def calm_env_def sample_env_def is_digit_def decimal_value_def)

text \<open>A separator U+001C before the number is not skipped, a no-break space is.\<close>

lemma separator_not_skipped:
  "int_of_str ([CHR 0x1C] @ ''-1'') = Inl ValueError" "int_of_str ([CHR 0xA0] @ ''-1'') = Inr (- 1)"
  by code_simp+


text \<open>
  When the prompt selects no printer, \<^verbatim>\<open>main\<close> calls nothing of the printer, reports it and
  comes to its closing \<^verbatim>\<open>input\<close>; how the run ends depends on that read alone.
\<close>

lemma main_without_printer:
  assumes "prompted cfg" and "selection cfg (answer en tr) = None \<or> selection cfg (answer en tr) = Some []"
  shows "main cfg en tr =
     (let tr1 = tr @ prompt_events cfg @
                [(Input [], answer en tr \<noteq> None),
                 (Print ''NO PRINTER SELECTED'', True),
                 (Print ''WORK COMPLETE'', True)]
      in (if answer en tr1 = None then Inl (Py EOFError) else Inr (),
          tr1 @ [(Input (''PRESS ENTER TO QUIT'' @ [CHR 0x0A]), answer en tr1 \<noteq> None)]))"
  using assms(2)
  by (auto simp add: main_def seq_def get_printer_name_prompted[OF assms(1)] py_print_def
      py_input_def ret_def Let_def split: option.split)

text \<open>
  C7. Printers A and B installed, printer C configured, standard input at end-of-file.
  The prompt is shown, \<^verbatim>\<open>EOFError\<close> is caught there and no printer is selected; the run
  reports it and prints nothing. The closing \<^verbatim>\<open>input("PRESS ENTER TO QUIT\\n")\<close> is not
  guarded and meets end-of-file again: \<^verbatim>\<open>main\<close> ends with \<^verbatim>\<open>EOFError\<close> raised, not cleanly.
\<close>

theorem main_end_of_file:
  "main sample_config (console []) [] =
     (Inl (Py EOFError),
      [(Print ''EXPECTED PRINTER NOT FOUND (C)'', True),
       (Print ''CHOOSE PRINTER OR QUIT'', True),
       (Print ''0. A'', True),
       (Print ''1. B'', True),
       (Print ''2. QUIT'', True),
       (Input [], False),
       (Print ''NO PRINTER SELECTED'', True),
       (Print ''WORK COMPLETE'', True),
       (Input (''PRESS ENTER TO QUIT'' @ [CHR 0x0A]), False)])"
  by code_simp

text \<open>The same run with the answers \<^verbatim>\<open>2\<close> (the QUIT entry) and then an empty line.\<close>

lemma main_answered:
  "main sample_config (console [Some ''2'', Some []]) [] =
     (Inr (),
      [(Print ''EXPECTED PRINTER NOT FOUND (C)'', True),
       (Print ''CHOOSE PRINTER OR QUIT'', True),
       (Print ''0. A'', True),
       (Print ''1. B'', True),
       (Print ''2. QUIT'', True),
       (Input [], True),
       (Print ''NO PRINTER SELECTED'', True),
       (Print ''WORK COMPLETE'', True),
       (Input (''PRESS ENTER TO QUIT'' @ [CHR 0x0A]), True)])"
  by code_simp

subsection \<open>The file selection\<close>

lemma listing_Cons: "listing ((d, es) # ds) = map (\<lambda>n. d @ [node_name n]) es @ listing ds"
  by (simp add: listing_def)

lemma listing_append: "listing (a @ b) = listing a @ listing b"
  by (simp add: listing_def)

lemma set_listing_concat: "set (listing (concat dss)) = (\<Union>ds\<in>set dss. set (listing ds))"
  by (induction dss) (simp_all add: listing_append, simp add: listing_def)

lemma entries_listing:
  "set (entries parent n) = insert (parent @ [node_name n]) (set (listing (node_dirs parent n)))"
proof (induction n arbitrary: parent)
  case (File nm)
  show ?case by (simp add: listing_def)
next
  case (Dir nm sub)
  let ?q = "parent @ [nm]"
  have "set (entries parent (Dir nm sub)) = insert ?q (\<Union>m\<in>set sub. set (entries ?q m))"
    by simp
  also have "(\<Union>m\<in>set sub. set (entries ?q m))
      = (\<Union>m\<in>set sub. insert (?q @ [node_name m]) (set (listing (node_dirs ?q m))))"
    using Dir.IH by simp
  also have "\<dots> = (\<lambda>m. ?q @ [node_name m]) ` set sub \<union> (\<Union>m\<in>set sub. set (listing (node_dirs ?q m)))"
    by auto
  also have "\<dots> = set (listing (node_dirs parent (Dir nm sub)))"
    by (simp add: listing_Cons set_listing_concat)
  finally show ?case by simp
qed

lemma rglob_star_entries: "set (rglob_star ns) = set (all_entries ns)"
proof -
  have "set (rglob_star ns) = set (listing (([], ns) # concat (map (node_dirs []) ns)))"
    by (simp add: rglob_star_def iterate_directories_def listing_def)
  also have "\<dots> = (\<lambda>n. [node_name n]) ` set ns \<union> (\<Union>n\<in>set ns. set (listing (node_dirs [] n)))"
    by (simp add: listing_Cons set_listing_concat)
  also have "\<dots> = (\<Union>n\<in>set ns. set (entries [] n))"
    by (auto simp: entries_listing)
  finally show ?thesis by (simp add: all_entries_def)
qed

text \<open>
  The selection is the set of entries of the recursive scan, files and directories
  alike, whose suffix is in \<^verbatim>\<open>PRINTABLE_EXTS\<close>. In the directory of the specification's
  example (\<^verbatim>\<open>x.pdf\<close>, \<^verbatim>\<open>y.png\<close>, \<^verbatim>\<open>z/w.pdf\<close>) that is \<^verbatim>\<open>x.pdf\<close> and \<^verbatim>\<open>z/w.pdf\<close>.
\<close>

lemma select_paths_entries:
  "set (select_paths cfg en)
     = {p \<in> set (all_entries (files en)). path_suffix p \<in> set (PRINTABLE_EXTS cfg)}"
  by (simp add: select_paths_def rglob_star_entries)

lemma select_paths_sample:
  "select_paths (source_config []) sample_env = [[''x.pdf''], [''z'', ''w.pdf'']]"
  by code_simp

text \<open>
  C8. A directory named \<^verbatim>\<open>scans.pdf\<close> that holds the picture \<^verbatim>\<open>a.png\<close>. The only regular file
  below the root is \<^verbatim>\<open>scans.pdf/a.png\<close> and its suffix is not allowed, so no file should be
  selected. \<^verbatim>\<open>rglob("*")\<close> yields the directory too and nothing asks whether a path is a
  file: the directory is selected.
\<close>

theorem directory_selected:
  "select_paths (source_config []) (calm_env\<lparr>files := pdf_named_directory\<rparr>) = [[''scans.pdf'']] \<and>
   all_regular_files (files (calm_env\<lparr>files := pdf_named_directory\<rparr>)) = [[''scans.pdf'', ''a.png'']] \<and>
   path_suffix [''scans.pdf'', ''a.png''] \<notin> set (PRINTABLE_EXTS (source_config []))"
  by code_simp

end
